theory Spec2Isabelle
  imports Complex_Main "HOL-Library.Sublist" "HOL-Library.AList" "HOL-Library.Log_Nat"
begin

section \<open>Exceptions\<close>

text \<open>
  The exception classes that lr7.py raises itself (ConnectionError, ValueError, KeyError,
  TypeError), the ones the Python runtime raises inside its expressions (OverflowError,
  ZeroDivisionError, AttributeError, IndexError), two classes that derive from BaseException but not
  from Exception, and user-defined classes of either sort, known by their name.
\<close>

datatype exc_type =
    ConnectionError | ValueError | KeyError | TypeError
  | OverflowError | ZeroDivisionError | AttributeError | IndexError
  | KeyboardInterrupt | SystemExit
  | UserException string
  | UserBaseException string

text \<open>An exception object: its class and the message it was constructed with.\<close>

datatype exn = Exn (exc_class: exc_type) (exc_message: string)

text \<open>\<^verbatim>\<open>type(e).__name__\<close>\<close>

fun type_name :: "exc_type \<Rightarrow> string" where
  "type_name ConnectionError = ''ConnectionError''"
| "type_name ValueError = ''ValueError''"
| "type_name KeyError = ''KeyError''"
| "type_name TypeError = ''TypeError''"
| "type_name OverflowError = ''OverflowError''"
| "type_name ZeroDivisionError = ''ZeroDivisionError''"
| "type_name AttributeError = ''AttributeError''"
| "type_name IndexError = ''IndexError''"
| "type_name KeyboardInterrupt = ''KeyboardInterrupt''"
| "type_name SystemExit = ''SystemExit''"
| "type_name (UserException n) = n"
| "type_name (UserBaseException n) = n"

text \<open>\<^verbatim>\<open>isinstance(e, Exception)\<close>: what the clause \<^verbatim>\<open>except Exception as e\<close> catches.\<close>

fun is_Exception :: "exn \<Rightarrow> bool" where
  "is_Exception (Exn KeyboardInterrupt m) = False"
| "is_Exception (Exn SystemExit m) = False"
| "is_Exception (Exn (UserBaseException n) m) = False"
| "is_Exception (Exn c m) = True"

text \<open>A name between single quotes, as the messages of the Python runtime show it.\<close>

definition quoted :: "string \<Rightarrow> string" where
  "quoted s = [CHR 0x27] @ s @ [CHR 0x27]"

section \<open>Log sinks\<close>

text \<open>
  The handle of the decorator is, by its docstring, \<^verbatim>\<open>sys.stdout\<close>, an \<^verbatim>\<open>io.StringIO\<close> or a
  \<^verbatim>\<open>logging.Logger\<close>. A stream is the list of the strings written to it, oldest first; a
  logger is the list of the records it was handed, each with the method that was called.
\<close>

datatype log_level = Info | Warning | Error

datatype sink = Stream "string list" | Logger "(log_level \<times> string) list"

text \<open>\<^verbatim>\<open>hasattr(handle, name)\<close> for the attributes the decorators ask for or call.\<close>

fun hasattr :: "sink \<Rightarrow> string \<Rightarrow> bool" where
  "hasattr (Stream ws) n = (n = ''write'')"
| "hasattr (Logger rs) n = (n = ''info'' \<or> n = ''warning'' \<or> n = ''error'')"

text \<open>
  \<^verbatim>\<open>handle.write(s)\<close>; a logger has no such method. The decorators call a method only
  where \<open>hasattr\<close> has found it, so the AttributeError of a missing method is never raised
  by them; its message here is the name of the attribute.
\<close>

fun handle_write :: "sink \<Rightarrow> string \<Rightarrow> exn + sink" where
  "handle_write (Stream ws) s = Inr (Stream (ws @ [s]))"
| "handle_write (Logger rs) s = Inl (Exn AttributeError ''write'')"

text \<open>\<^verbatim>\<open>handle.info(m)\<close>, \<^verbatim>\<open>handle.warning(m)\<close>, \<^verbatim>\<open>handle.error(m)\<close>; a stream has none of them.\<close>

fun handle_info :: "sink \<Rightarrow> string \<Rightarrow> exn + sink" where
  "handle_info (Logger rs) m = Inr (Logger (rs @ [(Info, m)]))"
| "handle_info (Stream ws) m = Inl (Exn AttributeError ''info'')"

fun handle_warning :: "sink \<Rightarrow> string \<Rightarrow> exn + sink" where
  "handle_warning (Logger rs) m = Inr (Logger (rs @ [(Warning, m)]))"
| "handle_warning (Stream ws) m = Inl (Exn AttributeError ''warning'')"

fun handle_error :: "sink \<Rightarrow> string \<Rightarrow> exn + sink" where
  "handle_error (Logger rs) m = Inr (Logger (rs @ [(Error, m)]))"
| "handle_error (Stream ws) m = Inl (Exn AttributeError ''error'')"

section \<open>The decorator \<^verbatim>\<open>logger\<close>\<close>

text \<open>\<^verbatim>\<open>sep.join(xs)\<close>\<close>

fun join :: "string \<Rightarrow> string list \<Rightarrow> string" where
  "join sep [] = []"
| "join sep [x] = x"
| "join sep (x # y # ys) = x @ sep @ join sep (y # ys)"

text \<open>
  \<^verbatim>\<open>inner(*args, **kwargs)\<close> of \<^verbatim>\<open>logger(func, handle=handle)\<close>. The values the wrapped function
  takes and returns are of any type \<open>'v\<close>; \<open>repr\<close> is Python's \<^verbatim>\<open>repr\<close> on them, \<open>str_exc\<close> is
  \<^verbatim>\<open>str(e)\<close> on an exception and \<open>name\<close> is \<^verbatim>\<open>func.__name__\<close>. The wrapped function is
  its result on the arguments: \<open>Inl e\<close> when it raises \<open>e\<close>, \<open>Inr r\<close> when it returns \<open>r\<close>. The
  result is the handle after the call, and what the call raises or returns.

  The first emission stands before the \<^verbatim>\<open>try\<close>; the call and the second emission stand in
  it; the handler catches instances of Exception only, emits and raises the same exception
  again.
\<close>

definition logger_inner ::
  "('v \<Rightarrow> string) \<Rightarrow> (exn \<Rightarrow> string) \<Rightarrow> string
    \<Rightarrow> ('v list \<Rightarrow> (string \<times> 'v) list \<Rightarrow> exn + 'v) \<Rightarrow> sink
    \<Rightarrow> 'v list \<Rightarrow> (string \<times> 'v) list \<Rightarrow> sink \<times> (exn + 'v)" where
  "logger_inner repr str_exc name func handle args kwargs =
    (let is_logging_obj = hasattr handle ''info'' \<and> hasattr handle ''error'';
         args_str = join '', '' (map repr args);
         kwargs_str = join '', '' (map (\<lambda>(k, v). k @ ''='' @ repr v) kwargs);
         all_args_str = join '', '' (filter (\<lambda>s. s \<noteq> []) [args_str, kwargs_str]);
         start_msg = ''INFO: Calling '' @ name @ ''('' @ all_args_str @ '')\<newline>''
     in
     case (if is_logging_obj
           then handle_info handle (''Calling '' @ name @ ''('' @ all_args_str @ '')'')
           else handle_write handle start_msg) of
       Inl e \<Rightarrow> (handle, Inl e)
     | Inr h1 \<Rightarrow>
         (case
            (case func args kwargs of
               Inl e \<Rightarrow> (h1, Inl e)
             | Inr result \<Rightarrow>
                 (let success_msg = ''INFO: '' @ name @ '' returned '' @ repr result @ ''\<newline>''
                  in case (if is_logging_obj
                           then handle_info h1 (name @ '' returned '' @ repr result)
                           else handle_write h1 success_msg) of
                       Inl e \<Rightarrow> (h1, Inl e)
                     | Inr h2 \<Rightarrow> (h2, Inr result)))
          of
            (h2, Inr result) \<Rightarrow> (h2, Inr result)
          | (h2, Inl e) \<Rightarrow>
              if is_Exception e then
                (let error_msg = ''ERROR: '' @ name @ '' raised '' @ type_name (exc_class e)
                                   @ '': '' @ str_exc e @ ''\<newline>''
                 in case (if is_logging_obj
                          then handle_error h2 (name @ '' raised '' @ type_name (exc_class e)
                                                  @ '': '' @ str_exc e)
                          else handle_write h2 error_msg) of
                      Inl e' \<Rightarrow> (h2, Inl e')
                    | Inr h3 \<Rightarrow> (h3, Inl e))
              else (h2, Inl e)))"


subsection \<open>The logical events of a call, as the specification words them\<close>

text \<open>
  The specification speaks of logical events, each a severity and a raw message: the
  call-start event, then the call-success or the call-failure event. A stream is to
  receive one string \<^verbatim>\<open>"{LEVEL}: {message}\n"\<close> for each.
\<close>

fun level_name :: "log_level \<Rightarrow> string" where
  "level_name Info = ''INFO''"
| "level_name Warning = ''WARNING''"
| "level_name Error = ''ERROR''"

definition stream_line :: "log_level \<times> string \<Rightarrow> string" where
  "stream_line ev = level_name (fst ev) @ '': '' @ snd ev @ ''\<newline>''"

definition rendered_args :: "('v \<Rightarrow> string) \<Rightarrow> 'v list \<Rightarrow> (string \<times> 'v) list \<Rightarrow> string" where
  "rendered_args repr args kwargs =
     join '', '' (filter (\<lambda>s. s \<noteq> [])
       [join '', '' (map repr args), join '', '' (map (\<lambda>(k, v). k @ ''='' @ repr v) kwargs)])"

definition start_event :: "('v \<Rightarrow> string) \<Rightarrow> string \<Rightarrow> 'v list \<Rightarrow> (string \<times> 'v) list
    \<Rightarrow> log_level \<times> string" where
  "start_event repr name args kwargs =
     (Info, ''Calling '' @ name @ ''('' @ rendered_args repr args kwargs @ '')'')"




section \<open>Floating-point values\<close>

text \<open>
  A Python float is an IEEE 754 binary64 value: a finite one is the rational number it
  stands for, and there are the two infinities and NaN. The two zeros are one value here
  (Python's \<^verbatim>\<open>==\<close> does not tell them apart either; only the printed sign of a zero differs).
\<close>

datatype f64 = Fin rat | PInf | NInf | NaN

section \<open>The rate fetch \<^verbatim>\<open>get_currencies\<close>\<close>

subsection \<open>Parsed JSON\<close>

text \<open>
  What \<^verbatim>\<open>response.json()\<close> returns: \<^verbatim>\<open>None\<close>, a bool, an int, a float, a str, a list or a
  dict with string keys. A dict is the list of its items in insertion order; a parsed dict
  has each key once, and a key is looked up with \<open>map_of\<close>.
\<close>

datatype json =
    JNull | JBool bool | JInt int | JFloat f64 | JStr string
  | JArr "json list" | JObj "(string \<times> json) list"

text \<open>\<^verbatim>\<open>type(v).__name__\<close> of a parsed value, as the messages of the runtime name it.\<close>

fun json_type :: "json \<Rightarrow> string" where
  "json_type JNull = ''NoneType''"
| "json_type (JBool b) = ''bool''"
| "json_type (JInt n) = ''int''"
| "json_type (JFloat x) = ''float''"
| "json_type (JStr s) = ''str''"
| "json_type (JArr xs) = ''list''"
| "json_type (JObj kvs) = ''dict''"

text \<open>
  \<^verbatim>\<open>key in obj\<close> for a string key: a dict has it among its keys, a list among its elements,
  a str as a substring; any other value is not iterable.
\<close>

fun py_contains :: "json \<Rightarrow> string \<Rightarrow> exn + bool" where
  "py_contains (JObj kvs) k = Inr (map_of kvs k \<noteq> None)"
| "py_contains (JArr xs) k = Inr (JStr k \<in> set xs)"
| "py_contains (JStr s) k = Inr (sublist k s)"
| "py_contains j k =
     Inl (Exn TypeError (''argument of type '' @ quoted (json_type j) @ '' is not iterable''))"

text \<open>
  \<^verbatim>\<open>obj[key]\<close> for a string key: a dict gives the value or raises KeyError; a list and a str
  take integer indices only; any other value is not subscriptable.
\<close>

fun py_getitem :: "json \<Rightarrow> string \<Rightarrow> exn + json" where
  "py_getitem (JObj kvs) k = (case map_of kvs k of None \<Rightarrow> Inl (Exn KeyError k) | Some v \<Rightarrow> Inr v)"
| "py_getitem (JArr xs) k = Inl (Exn TypeError ''list indices must be integers or slices, not str'')"
| "py_getitem (JStr s) k =
     Inl (Exn TypeError (''string indices must be integers, not '' @ quoted ''str''))"
| "py_getitem j k = Inl (Exn TypeError (quoted (json_type j) @ '' object is not subscriptable''))"

text \<open>\<^verbatim>\<open>obj.get(key)\<close>: only a dict has the method; a missing key gives \<^verbatim>\<open>None\<close>.\<close>

fun py_get :: "json \<Rightarrow> string \<Rightarrow> exn + json" where
  "py_get (JObj kvs) k = (case map_of kvs k of None \<Rightarrow> Inr JNull | Some v \<Rightarrow> Inr v)"
| "py_get j k =
     Inl (Exn AttributeError (quoted (json_type j) @ '' object has no attribute '' @ quoted ''get''))"

text \<open>
  \<^verbatim>\<open>isinstance(value, (int, float))\<close>. In Python \<^verbatim>\<open>bool\<close> is a subclass of \<^verbatim>\<open>int\<close>, so
  \<^verbatim>\<open>True\<close> and \<^verbatim>\<open>False\<close> are instances too.
\<close>

fun isinstance_int_float :: "json \<Rightarrow> bool" where
  "isinstance_int_float (JInt n) = True"
| "isinstance_int_float (JFloat x) = True"
| "isinstance_int_float (JBool b) = True"
| "isinstance_int_float j = False"

subsection \<open>The messages of the exceptions\<close>

text \<open>
  The messages are Russian text; a string here is the list of the bytes of its UTF-8
  encoding, and each is given with its transliteration.
\<close>

text \<open>the text before the cause in the message of the ConnectionError, "API nedostupen: " (API is not available), in UTF-8.\<close>

definition msg_api_unavailable :: string where
  "msg_api_unavailable =
     ''API '' @ [CHR 0xD0, CHR 0xBD, CHR 0xD0, CHR 0xB5, CHR 0xD0, CHR 0xB4, CHR 0xD0,
      CHR 0xBE, CHR 0xD1, CHR 0x81, CHR 0xD1, CHR 0x82, CHR 0xD1, CHR 0x83, CHR 0xD0,
      CHR 0xBF, CHR 0xD0, CHR 0xB5, CHR 0xD0, CHR 0xBD] @ '': ''"

text \<open>"Otvet API soderzhit nekorrektnyi JSON" (the API's answer holds incorrect JSON), in UTF-8.\<close>

definition msg_bad_json :: string where
  "msg_bad_json =
     [CHR 0xD0, CHR 0x9E, CHR 0xD1, CHR 0x82, CHR 0xD0, CHR 0xB2, CHR 0xD0, CHR 0xB5,
      CHR 0xD1, CHR 0x82] @ '' API '' @ [CHR 0xD1, CHR 0x81, CHR 0xD0, CHR 0xBE, CHR 0xD0,
      CHR 0xB4, CHR 0xD0, CHR 0xB5, CHR 0xD1, CHR 0x80, CHR 0xD0, CHR 0xB6, CHR 0xD0,
      CHR 0xB8, CHR 0xD1, CHR 0x82] @ '' '' @ [CHR 0xD0, CHR 0xBD, CHR 0xD0, CHR 0xB5,
      CHR 0xD0, CHR 0xBA, CHR 0xD0, CHR 0xBE, CHR 0xD1, CHR 0x80, CHR 0xD1, CHR 0x80,
      CHR 0xD0, CHR 0xB5, CHR 0xD0, CHR 0xBA, CHR 0xD1, CHR 0x82, CHR 0xD0, CHR 0xBD,
      CHR 0xD1, CHR 0x8B, CHR 0xD0, CHR 0xB9] @ '' JSON''"

text \<open>"V otvete API otsutstvuet klyuch 'Valute'" (the API's answer has no key 'Valute'), in UTF-8.\<close>

definition msg_no_valute :: string where
  "msg_no_valute =
     [CHR 0xD0, CHR 0x92] @ '' '' @ [CHR 0xD0, CHR 0xBE, CHR 0xD1, CHR 0x82, CHR 0xD0,
      CHR 0xB2, CHR 0xD0, CHR 0xB5, CHR 0xD1, CHR 0x82, CHR 0xD0, CHR 0xB5] @ '' API '' @ [
      CHR 0xD0, CHR 0xBE, CHR 0xD1, CHR 0x82, CHR 0xD1, CHR 0x81, CHR 0xD1, CHR 0x83,
      CHR 0xD1, CHR 0x82, CHR 0xD1, CHR 0x81, CHR 0xD1, CHR 0x82, CHR 0xD0, CHR 0xB2,
      CHR 0xD1, CHR 0x83, CHR 0xD0, CHR 0xB5, CHR 0xD1, CHR 0x82] @ '' '' @ [CHR 0xD0,
      CHR 0xBA, CHR 0xD0, CHR 0xBB, CHR 0xD1, CHR 0x8E, CHR 0xD1, CHR 0x87] @ '' '' @ [
      CHR 0x27] @ ''Valute'' @ [CHR 0x27]"

text \<open>"Valyuta '" (currency '), before the code, in UTF-8.\<close>

definition msg_currency_open :: string where
  "msg_currency_open =
     [CHR 0xD0, CHR 0x92, CHR 0xD0, CHR 0xB0, CHR 0xD0, CHR 0xBB, CHR 0xD1, CHR 0x8E,
      CHR 0xD1, CHR 0x82, CHR 0xD0, CHR 0xB0] @ '' '' @ [CHR 0x27]"

text \<open>"' otsutstvuet v dannykh API" (' is absent from the API's data), after the code, in UTF-8.\<close>

definition msg_currency_close :: string where
  "msg_currency_close =
     [CHR 0x27] @ '' '' @ [CHR 0xD0, CHR 0xBE, CHR 0xD1, CHR 0x82, CHR 0xD1, CHR 0x81,
      CHR 0xD1, CHR 0x83, CHR 0xD1, CHR 0x82, CHR 0xD1, CHR 0x81, CHR 0xD1, CHR 0x82,
      CHR 0xD0, CHR 0xB2, CHR 0xD1, CHR 0x83, CHR 0xD0, CHR 0xB5, CHR 0xD1, CHR 0x82] @
      '' '' @ [CHR 0xD0, CHR 0xB2] @ '' '' @ [CHR 0xD0, CHR 0xB4, CHR 0xD0, CHR 0xB0,
      CHR 0xD0, CHR 0xBD, CHR 0xD0, CHR 0xBD, CHR 0xD1, CHR 0x8B, CHR 0xD1, CHR 0x85] @
      '' API''"

text \<open>"Kurs valyuty '" (rate of currency '), before the code, in UTF-8.\<close>

definition msg_rate_open :: string where
  "msg_rate_open =
     [CHR 0xD0, CHR 0x9A, CHR 0xD1, CHR 0x83, CHR 0xD1, CHR 0x80, CHR 0xD1, CHR 0x81] @
      '' '' @ [CHR 0xD0, CHR 0xB2, CHR 0xD0, CHR 0xB0, CHR 0xD0, CHR 0xBB, CHR 0xD1,
      CHR 0x8E, CHR 0xD1, CHR 0x82, CHR 0xD1, CHR 0x8B] @ '' '' @ [CHR 0x27]"

text \<open>"' imeet nevernyi tip ili otsutstvuet" (' has a wrong type or is absent), after the code, in UTF-8.\<close>

definition msg_rate_close :: string where
  "msg_rate_close =
     [CHR 0x27] @ '' '' @ [CHR 0xD0, CHR 0xB8, CHR 0xD0, CHR 0xBC, CHR 0xD0, CHR 0xB5,
      CHR 0xD0, CHR 0xB5, CHR 0xD1, CHR 0x82] @ '' '' @ [CHR 0xD0, CHR 0xBD, CHR 0xD0,
      CHR 0xB5, CHR 0xD0, CHR 0xB2, CHR 0xD0, CHR 0xB5, CHR 0xD1, CHR 0x80, CHR 0xD0,
      CHR 0xBD, CHR 0xD1, CHR 0x8B, CHR 0xD0, CHR 0xB9] @ '' '' @ [CHR 0xD1, CHR 0x82,
      CHR 0xD0, CHR 0xB8, CHR 0xD0, CHR 0xBF] @ '' '' @ [CHR 0xD0, CHR 0xB8, CHR 0xD0,
      CHR 0xBB, CHR 0xD0, CHR 0xB8] @ '' '' @ [CHR 0xD0, CHR 0xBE, CHR 0xD1, CHR 0x82,
      CHR 0xD1, CHR 0x81, CHR 0xD1, CHR 0x83, CHR 0xD1, CHR 0x82, CHR 0xD1, CHR 0x81,
      CHR 0xD1, CHR 0x82, CHR 0xD0, CHR 0xB2, CHR 0xD1, CHR 0x83, CHR 0xD0, CHR 0xB5,
      CHR 0xD1, CHR 0x82]"


subsection \<open>The HTTP service\<close>

text \<open>
  The HTTP client is an external service. What \<^verbatim>\<open>get_currencies\<close> sees of it is one of
  three outcomes: \<^verbatim>\<open>requests.get(url, timeout=5)\<close> or \<^verbatim>\<open>response.raise_for_status()\<close> raised a
  RequestException \<open>e\<close> (kept: \<^verbatim>\<open>str(e)\<close>); \<^verbatim>\<open>response.json()\<close> raised a JSONDecodeError;
  or \<^verbatim>\<open>response.json()\<close> returned the parsed body.
\<close>

datatype http_outcome = RequestFailed string | NotJson | Body json

definition default_url :: string where
  "default_url = ''https://www.cbr-xml-daily.ru/daily_json.js''"

subsection \<open>The function\<close>

text \<open>
  The loop \<^verbatim>\<open>for code in currency_codes\<close> over the codes still to do, with the dict
  \<^verbatim>\<open>result\<close> built so far. \<^verbatim>\<open>result[code] = value\<close> is \<open>AList.update\<close>: a new key goes to
  the end, a key already there keeps its place and takes the new value.
\<close>

fun get_currencies_loop ::
  "json \<Rightarrow> string list \<Rightarrow> (string \<times> json) list \<Rightarrow> exn + (string \<times> json) list" where
  "get_currencies_loop valute_data [] result = Inr result"
| "get_currencies_loop valute_data (code # codes) result =
     (case py_contains valute_data code of
        Inl e \<Rightarrow> Inl e
      | Inr False \<Rightarrow> Inl (Exn KeyError (msg_currency_open @ code @ msg_currency_close))
      | Inr True \<Rightarrow>
          (case py_getitem valute_data code of
             Inl e \<Rightarrow> Inl e
           | Inr currency_info \<Rightarrow>
               (case py_get currency_info ''Value'' of
                  Inl e \<Rightarrow> Inl e
                | Inr v \<Rightarrow>
                    if v = JNull \<or> \<not> isinstance_int_float v
                    then Inl (Exn TypeError (msg_rate_open @ code @ msg_rate_close))
                    else get_currencies_loop valute_data codes (AList.update code v result))))"

text \<open>
  \<^verbatim>\<open>get_currencies(currency_codes, url)\<close>, with the HTTP service as the function \<open>http\<close> from
  the URL to the outcome of the request.
\<close>

definition get_currencies ::
  "(string \<Rightarrow> http_outcome) \<Rightarrow> string list \<Rightarrow> string \<Rightarrow> exn + (string \<times> json) list" where
  "get_currencies http currency_codes url =
     (case http url of
        RequestFailed e \<Rightarrow> Inl (Exn ConnectionError (msg_api_unavailable @ e))
      | NotJson \<Rightarrow> Inl (Exn ValueError msg_bad_json)
      | Body data \<Rightarrow>
          (case py_contains data ''Valute'' of
             Inl e \<Rightarrow> Inl e
           | Inr False \<Rightarrow> Inl (Exn KeyError msg_no_valute)
           | Inr True \<Rightarrow>
               (case py_getitem data ''Valute'' of
                  Inl e \<Rightarrow> Inl e
                | Inr valute_data \<Rightarrow> get_currencies_loop valute_data currency_codes [])))"

subsection \<open>The failure taxonomy and the payload's shape, as the specification words them\<close>

text \<open>
  The specification names the failures of the fetch; the code raises built-in exceptions.
  \<open>raised_as\<close> is the exception the code raises for each member: MissingField and
  UnknownCurrency are both a KeyError and differ in the message, InvalidValue is a
  TypeError.
\<close>

datatype failure =
    ConnectionFailure string | InvalidFormat | MissingField
  | UnknownCurrency string | InvalidValue string

fun raised_as :: "failure \<Rightarrow> exn" where
  "raised_as (ConnectionFailure cause) = Exn ConnectionError (msg_api_unavailable @ cause)"
| "raised_as InvalidFormat = Exn ValueError msg_bad_json"
| "raised_as MissingField = Exn KeyError msg_no_valute"
| "raised_as (UnknownCurrency code) = Exn KeyError (msg_currency_open @ code @ msg_currency_close)"
| "raised_as (InvalidValue code) = Exn TypeError (msg_rate_open @ code @ msg_rate_close)"

text \<open>
  The numeric \<^verbatim>\<open>Value\<close> of a code in the \<^verbatim>\<open>Valute\<close> mapping, when the code is there, its
  entry is a record, and the record has a \<^verbatim>\<open>Value\<close> that is numeric (an instance of int or
  float, as the code tests it).
\<close>

definition rate_of :: "(string \<times> json) list \<Rightarrow> string \<Rightarrow> json option" where
  "rate_of valute code =
     (case map_of valute code of
        Some (JObj info) \<Rightarrow>
          (case map_of info ''Value'' of
             Some v \<Rightarrow> if isinstance_int_float v then Some v else None
           | None \<Rightarrow> None)
      | _ \<Rightarrow> None)"

text \<open>The violation of a code that has no numeric \<^verbatim>\<open>Value\<close>.\<close>

definition violation :: "(string \<times> json) list \<Rightarrow> string \<Rightarrow> failure" where
  "violation valute code =
     (if map_of valute code = None then UnknownCurrency code else InvalidValue code)"

text \<open>Every entry of the \<^verbatim>\<open>Valute\<close> mapping is a record (a JSON object).\<close>

definition records :: "(string \<times> json) list \<Rightarrow> bool" where
  "records valute = list_all (\<lambda>kv. case snd kv of JObj info \<Rightarrow> True | _ \<Rightarrow> False) valute"

text \<open>
  The order in which a dict comes to hold the keys it is given one by one: each key at its
  first occurrence.
\<close>

primrec insertion_order :: "'a list \<Rightarrow> 'a list" where
  "insertion_order [] = []"
| "insertion_order (x # xs) = x # filter (\<lambda>y. y \<noteq> x) (insertion_order xs)"

subsection \<open>An example payload\<close>

text \<open>
  A body of the shape the rate source answers with, cut down to three currencies: one
  with a float rate, one with an integer rate, and one whose \<^verbatim>\<open>Value\<close> is a string.
\<close>

definition example_valute :: "(string \<times> json) list" where
  "example_valute =
     [(''USD'', JObj [(''Nominal'', JInt 1), (''Value'', JFloat (Fin (181 / 2)))]),
      (''EUR'', JObj [(''Nominal'', JInt 1), (''Value'', JInt 100)]),
      (''XXX'', JObj [(''Nominal'', JInt 1), (''Value'', JStr ''n/a'')])]"

definition example_doc :: "(string \<times> json) list" where
  "example_doc = [(''Date'', JStr ''2024-01-01''), (''Valute'', JObj example_valute)]"

definition example_http :: "string \<Rightarrow> http_outcome" where
  "example_http url = (if url = default_url then Body (JObj example_doc) else RequestFailed ''no route'')"

section \<open>Python numbers\<close>

subsection \<open>Rounding to binary64\<close>

text \<open>
  \<open>ilog2 x\<close> is the exponent of the binade of a rational \<open>x \<noteq> 0\<close>: the integer \<open>e\<close> with
  \<open>2\<^sup>e \<le> \<bar>x\<bar> < 2\<^sup>e\<^sup>+\<^sup>1\<close>. It is computed from the bit lengths of the numerator and the
  denominator, which leave two candidates.
\<close>

definition ilog2 :: "rat \<Rightarrow> int" where
  "ilog2 x =
     (let (p, q) = quotient_of \<bar>x\<bar>;
          k = bitlen p - bitlen q
      in if 2 powi k \<le> \<bar>x\<bar> then k else k - 1)"

text \<open>Rounding to the nearest integer, a tie going to the even one.\<close>

definition round_half_even :: "rat \<Rightarrow> int" where
  "round_half_even q =
     (let n = \<lfloor>q\<rfloor>;
          r = q - of_int n
      in if r < 1 / 2 then n
         else if 1 / 2 < r then n + 1
         else if even n then n else n + 1)"

text \<open>
  The exponent of the unit in the last place for the binade of \<open>x\<close>: a binary64 significand
  has 53 bits, and below \<open>2\<^sup>-\<^sup>1\<^sup>0\<^sup>2\<^sup>2\<close> (the subnormal range) the spacing stays that of the
  lowest normal binade.
\<close>

definition ulp_exponent :: "rat \<Rightarrow> int" where
  "ulp_exponent x = max (ilog2 x) (- 1022) - 52"

text \<open>The multiple of the unit in the last place that is nearest to \<open>x\<close>, ties to even.\<close>

definition nearest :: "rat \<Rightarrow> rat" where
  "nearest x =
     (if x = 0 then 0
      else of_int (round_half_even (x / 2 powi ulp_exponent x)) * 2 powi ulp_exponent x)"

text \<open>
  The binary64 value of an exact result \<open>x\<close> (IEEE 754 round to nearest, ties to even): a
  rounded magnitude of \<open>2\<^sup>1\<^sup>0\<^sup>2\<^sup>4\<close> or more is an infinity.
\<close>

definition fl :: "rat \<Rightarrow> f64" where
  "fl x =
     (let y = nearest x
      in if 2 ^ 1024 \<le> y then PInf else if y \<le> - (2 ^ 1024) then NInf else Fin y)"

text \<open>\<open>Fin x\<close> stands for a binary64 value when rounding leaves \<open>x\<close> as it is.\<close>

fun is_binary64 :: "f64 \<Rightarrow> bool" where
  "is_binary64 (Fin x) = (fl x = Fin x)"
| "is_binary64 v = True"

subsection \<open>The arithmetic of floats\<close>

fun f_neg :: "f64 \<Rightarrow> f64" where
  "f_neg (Fin x) = Fin (- x)"
| "f_neg PInf = NInf"
| "f_neg NInf = PInf"
| "f_neg NaN = NaN"

fun f_add :: "f64 \<Rightarrow> f64 \<Rightarrow> f64" where
  "f_add NaN y = NaN"
| "f_add x NaN = NaN"
| "f_add PInf NInf = NaN"
| "f_add NInf PInf = NaN"
| "f_add PInf y = PInf"
| "f_add NInf y = NInf"
| "f_add x PInf = PInf"
| "f_add x NInf = NInf"
| "f_add (Fin x) (Fin y) = fl (x + y)"

definition f_sub :: "f64 \<Rightarrow> f64 \<Rightarrow> f64" where
  "f_sub x y = f_add x (f_neg y)"

text \<open>The sign of a float that is not NaN: \<open>-1\<close>, \<open>0\<close> or \<open>1\<close>.\<close>

fun f_sgn :: "f64 \<Rightarrow> rat" where
  "f_sgn (Fin x) = sgn x"
| "f_sgn PInf = 1"
| "f_sgn NInf = - 1"
| "f_sgn NaN = 0"

text \<open>The infinity of a sign, NaN for the sign zero (an infinity times zero).\<close>

definition inf_of_sign :: "rat \<Rightarrow> f64" where
  "inf_of_sign s = (if 0 < s then PInf else if s < 0 then NInf else NaN)"

fun f_mul :: "f64 \<Rightarrow> f64 \<Rightarrow> f64" where
  "f_mul NaN y = NaN"
| "f_mul x NaN = NaN"
| "f_mul (Fin x) (Fin y) = fl (x * y)"
| "f_mul x y = inf_of_sign (f_sgn x * f_sgn y)"

text \<open>
  The quotient of two floats, for a divisor that is not zero (Python tests the divisor
  and raises ZeroDivisionError before it divides).
\<close>

fun f_div :: "f64 \<Rightarrow> f64 \<Rightarrow> f64" where
  "f_div NaN y = NaN"
| "f_div x NaN = NaN"
| "f_div (Fin x) (Fin y) = fl (x / y)"
| "f_div (Fin x) y = Fin 0"
| "f_div x (Fin y) = inf_of_sign (f_sgn x * sgn y)"
| "f_div x y = NaN"

text \<open>
  The integer square root, two bits at a time: \<open>isqrt n\<close> is the greatest \<open>r\<close> with
  \<open>r\<^sup>2 \<le> n\<close>.
\<close>

function isqrt :: "int \<Rightarrow> int" where
  "isqrt n =
     (if n \<le> 0 then 0
      else (let r = 2 * isqrt (n div 4)
            in if (r + 1) * (r + 1) \<le> n then r + 1 else r))"
  by pat_completeness auto
termination
  by (relation "measure nat") auto

declare isqrt.simps [simp del]

text \<open>
  The square root of \<open>t \<ge> 0\<close> rounded to the nearest integer, ties to even: with
  \<open>n = \<lfloor>\<surd>t\<rfloor>\<close>, the root lies below \<open>n + 1/2\<close> exactly when \<open>t < (n + 1/2)\<^sup>2\<close>.
\<close>

definition round_half_even_sqrt :: "rat \<Rightarrow> int" where
  "round_half_even_sqrt t =
     (let n = isqrt \<lfloor>t\<rfloor>;
          m = (of_int n + 1 / 2) * (of_int n + 1 / 2)
      in if t < m then n
         else if m < t then n + 1
         else if even n then n else n + 1)"

text \<open>
  The correctly rounded square root of \<open>x > 0\<close>. The binade of the root has the exponent
  \<open>\<lfloor>ilog2 x / 2\<rfloor>\<close>; the root never reaches the overflow threshold.
\<close>

definition sqrt_nearest :: "rat \<Rightarrow> rat" where
  "sqrt_nearest x =
     (if x \<le> 0 then 0
      else (let e = max (ilog2 x div 2) (- 1022) - 52
            in of_int (round_half_even_sqrt (x / (2 powi e * 2 powi e))) * 2 powi e))"

subsection \<open>Numbers: int and float\<close>

text \<open>
  The operands of the solver's arithmetic are instances of int (of any size; a bool counts
  as the int 0 or 1) or of float. An operation on two ints is exact; an operation with a
  float converts an int operand to float first, which raises OverflowError when the int
  is beyond the float range.
\<close>

datatype number = IntNum int | FloatNum f64

text \<open>\<^verbatim>\<open>float(n)\<close> for an int, as the mixed operations and \<^verbatim>\<open>math.sqrt\<close> convert it.\<close>

definition to_float :: "int \<Rightarrow> exn + f64" where
  "to_float n =
     (case fl (of_int n) of
        Fin x \<Rightarrow> Inr (Fin x)
      | _ \<Rightarrow> Inl (Exn OverflowError ''int too large to convert to float''))"

text \<open>The operand of a float operation.\<close>

fun as_float :: "number \<Rightarrow> exn + f64" where
  "as_float (IntNum n) = to_float n"
| "as_float (FloatNum x) = Inr x"

text \<open>A number is a Python value when its float, if it is one, is a binary64 value.\<close>

fun binary64_number :: "number \<Rightarrow> bool" where
  "binary64_number (IntNum n) = True"
| "binary64_number (FloatNum x) = is_binary64 x"

text \<open>Sequencing of steps that may raise: the first exception ends the evaluation.\<close>

definition bindE :: "exn + 'a \<Rightarrow> ('a \<Rightarrow> exn + 'b) \<Rightarrow> exn + 'b" where
  "bindE m f = (case m of Inl e \<Rightarrow> Inl e | Inr x \<Rightarrow> f x)"

text \<open>\<^verbatim>\<open>x == 0\<close>, \<^verbatim>\<open>x < 0\<close> and \<^verbatim>\<open>x > 0\<close>; a comparison of numbers is exact and never raises.\<close>

fun num_eq0 :: "number \<Rightarrow> bool" where
  "num_eq0 (IntNum n) = (n = 0)"
| "num_eq0 (FloatNum (Fin x)) = (x = 0)"
| "num_eq0 (FloatNum v) = False"

fun num_lt0 :: "number \<Rightarrow> bool" where
  "num_lt0 (IntNum n) = (n < 0)"
| "num_lt0 (FloatNum (Fin x)) = (x < 0)"
| "num_lt0 (FloatNum NInf) = True"
| "num_lt0 (FloatNum v) = False"

fun num_gt0 :: "number \<Rightarrow> bool" where
  "num_gt0 (IntNum n) = (0 < n)"
| "num_gt0 (FloatNum (Fin x)) = (0 < x)"
| "num_gt0 (FloatNum PInf) = True"
| "num_gt0 (FloatNum v) = False"

text \<open>\<^verbatim>\<open>-x\<close>\<close>

fun num_neg :: "number \<Rightarrow> number" where
  "num_neg (IntNum n) = IntNum (- n)"
| "num_neg (FloatNum x) = FloatNum (f_neg x)"

text \<open>\<^verbatim>\<open>x + y\<close>, \<^verbatim>\<open>x - y\<close>, \<^verbatim>\<open>x * y\<close>\<close>

fun num_add :: "number \<Rightarrow> number \<Rightarrow> exn + number" where
  "num_add (IntNum m) (IntNum n) = Inr (IntNum (m + n))"
| "num_add x y = bindE (as_float x) (\<lambda>u. bindE (as_float y) (\<lambda>v. Inr (FloatNum (f_add u v))))"

fun num_sub :: "number \<Rightarrow> number \<Rightarrow> exn + number" where
  "num_sub (IntNum m) (IntNum n) = Inr (IntNum (m - n))"
| "num_sub x y = bindE (as_float x) (\<lambda>u. bindE (as_float y) (\<lambda>v. Inr (FloatNum (f_sub u v))))"

fun num_mul :: "number \<Rightarrow> number \<Rightarrow> exn + number" where
  "num_mul (IntNum m) (IntNum n) = Inr (IntNum (m * n))"
| "num_mul x y = bindE (as_float x) (\<lambda>u. bindE (as_float y) (\<lambda>v. Inr (FloatNum (f_mul u v))))"

text \<open>
  \<^verbatim>\<open>x / y\<close>, the true division. The quotient of two ints is the exact quotient rounded
  once; it raises ZeroDivisionError for the divisor 0 and OverflowError when the rounded
  quotient is beyond the float range. With a float operand both operands are converted,
  then the divisor is tested.
\<close>

fun num_truediv :: "number \<Rightarrow> number \<Rightarrow> exn + number" where
  "num_truediv (IntNum m) (IntNum n) =
     (if n = 0 then Inl (Exn ZeroDivisionError ''division by zero'')
      else (case fl (of_int m / of_int n) of
              Fin q \<Rightarrow> Inr (FloatNum (Fin q))
            | _ \<Rightarrow> Inl (Exn OverflowError ''integer division result too large for a float'')))"
| "num_truediv x y =
     bindE (as_float x) (\<lambda>u. bindE (as_float y) (\<lambda>v.
       if v = Fin 0 then Inl (Exn ZeroDivisionError ''float division by zero'')
       else Inr (FloatNum (f_div u v))))"

text \<open>
  \<^verbatim>\<open>x ** 2\<close>. The square of an int is an int. For a float CPython settles NaN, the
  infinities, zero and \<open>\<plusminus>1\<close> itself and hands every other finite \<open>x\<close> to the C
  library as \<^verbatim>\<open>pow(|x|, 2.0)\<close>; an infinite result of that call is raised as the
  OverflowError of the range error, whose text is \<^verbatim>\<open>(34, 'Numerical result out of range')\<close>,
  and a result that underflows to zero is returned. The C library's \<^verbatim>\<open>pow\<close> is not part
  of the repository and is not always the correctly rounded square, so it is the parameter
  \<open>pow2\<close>: the result of \<^verbatim>\<open>pow(x, 2.0)\<close> at a finite \<open>x > 0\<close>.
\<close>

fun num_pow2 :: "(rat \<Rightarrow> f64) \<Rightarrow> number \<Rightarrow> exn + number" where
  "num_pow2 pow2 (IntNum n) = Inr (IntNum (n * n))"
| "num_pow2 pow2 (FloatNum (Fin x)) =
     (if x = 0 then Inr (FloatNum (Fin 0))
      else if \<bar>x\<bar> = 1 then Inr (FloatNum (Fin 1))
      else (case pow2 \<bar>x\<bar> of
              Fin y \<Rightarrow> Inr (FloatNum (Fin y))
            | NaN \<Rightarrow> Inr (FloatNum NaN)
            | _ \<Rightarrow> Inl (Exn OverflowError
                        (''(34, '' @ quoted ''Numerical result out of range'' @ '')''))))"
| "num_pow2 pow2 (FloatNum NaN) = Inr (FloatNum NaN)"
| "num_pow2 pow2 (FloatNum v) = Inr (FloatNum PInf)"

text \<open>The correctly rounded square, which a C library's \<^verbatim>\<open>pow\<close> may be.\<close>

definition pow2_rounded :: "rat \<Rightarrow> f64" where
  "pow2_rounded x = fl (x * x)"

text \<open>
  \<^verbatim>\<open>math.sqrt(x)\<close>: the operand is converted to float; the root of a negative number is a
  ValueError; the result is a float.
\<close>

fun f_sqrt :: "f64 \<Rightarrow> exn + number" where
  "f_sqrt NaN = Inr (FloatNum NaN)"
| "f_sqrt PInf = Inr (FloatNum PInf)"
| "f_sqrt NInf = Inl (Exn ValueError ''math domain error'')"
| "f_sqrt (Fin x) =
     (if x < 0 then Inl (Exn ValueError ''math domain error'')
      else Inr (FloatNum (Fin (sqrt_nearest x))))"

definition math_sqrt :: "number \<Rightarrow> exn + number" where
  "math_sqrt x = bindE (as_float x) f_sqrt"

section \<open>The quadratic solver\<close>

subsection \<open>Python values\<close>

text \<open>The values the solver and its decorator meet: arguments of any type, and tuples.\<close>

datatype pyval =
    PyNone | PyBool bool | PyInt int | PyFloat f64 | PyStr string | PyTuple "pyval list"

text \<open>
  The number a value is, when \<^verbatim>\<open>isinstance(i, (int, float))\<close> holds of it: \<^verbatim>\<open>bool\<close> is a
  subclass of \<^verbatim>\<open>int\<close>, with \<^verbatim>\<open>True == 1\<close> and \<^verbatim>\<open>False == 0\<close>.
\<close>

fun as_number :: "pyval \<Rightarrow> number option" where
  "as_number (PyBool b) = Some (IntNum (if b then 1 else 0))"
| "as_number (PyInt n) = Some (IntNum n)"
| "as_number (PyFloat x) = Some (FloatNum x)"
| "as_number v = None"

definition isinstance_number :: "pyval \<Rightarrow> bool" where
  "isinstance_number v = (as_number v \<noteq> None)"

fun of_number :: "number \<Rightarrow> pyval" where
  "of_number (IntNum n) = PyInt n"
| "of_number (FloatNum x) = PyFloat x"

subsection \<open>The messages of the solver's exceptions\<close>

text \<open>"Koeffitsienty dolzhny byt' chislami" (the coefficients must be numbers), in UTF-8.\<close>

definition msg_coefficients :: string where
  "msg_coefficients =
     [CHR 0xD0, CHR 0x9A, CHR 0xD0, CHR 0xBE, CHR 0xD1, CHR 0x8D, CHR 0xD1, CHR 0x84,
      CHR 0xD1, CHR 0x84, CHR 0xD0, CHR 0xB8, CHR 0xD1, CHR 0x86, CHR 0xD0, CHR 0xB8,
      CHR 0xD0, CHR 0xB5, CHR 0xD0, CHR 0xBD, CHR 0xD1, CHR 0x82, CHR 0xD1, CHR 0x8B] @
      '' '' @ [CHR 0xD0, CHR 0xB4, CHR 0xD0, CHR 0xBE, CHR 0xD0, CHR 0xBB, CHR 0xD0,
      CHR 0xB6, CHR 0xD0, CHR 0xBD, CHR 0xD1, CHR 0x8B] @ '' '' @ [CHR 0xD0, CHR 0xB1,
      CHR 0xD1, CHR 0x8B, CHR 0xD1, CHR 0x82, CHR 0xD1, CHR 0x8C] @ '' '' @ [CHR 0xD1,
      CHR 0x87, CHR 0xD0, CHR 0xB8, CHR 0xD1, CHR 0x81, CHR 0xD0, CHR 0xBB, CHR 0xD0,
      CHR 0xB0, CHR 0xD0, CHR 0xBC, CHR 0xD0, CHR 0xB8]"

text \<open>"Uravnenie imeet beskonechno mnogo reshenii" (the equation has infinitely many solutions), in UTF-8.\<close>

definition msg_infinitely_many :: string where
  "msg_infinitely_many =
     [CHR 0xD0, CHR 0xA3, CHR 0xD1, CHR 0x80, CHR 0xD0, CHR 0xB0, CHR 0xD0, CHR 0xB2,
      CHR 0xD0, CHR 0xBD, CHR 0xD0, CHR 0xB5, CHR 0xD0, CHR 0xBD, CHR 0xD0, CHR 0xB8,
      CHR 0xD0, CHR 0xB5] @ '' '' @ [CHR 0xD0, CHR 0xB8, CHR 0xD0, CHR 0xBC, CHR 0xD0,
      CHR 0xB5, CHR 0xD0, CHR 0xB5, CHR 0xD1, CHR 0x82] @ '' '' @ [CHR 0xD0, CHR 0xB1,
      CHR 0xD0, CHR 0xB5, CHR 0xD1, CHR 0x81, CHR 0xD0, CHR 0xBA, CHR 0xD0, CHR 0xBE,
      CHR 0xD0, CHR 0xBD, CHR 0xD0, CHR 0xB5, CHR 0xD1, CHR 0x87, CHR 0xD0, CHR 0xBD,
      CHR 0xD0, CHR 0xBE] @ '' '' @ [CHR 0xD0, CHR 0xBC, CHR 0xD0, CHR 0xBD, CHR 0xD0,
      CHR 0xBE, CHR 0xD0, CHR 0xB3, CHR 0xD0, CHR 0xBE] @ '' '' @ [CHR 0xD1, CHR 0x80,
      CHR 0xD0, CHR 0xB5, CHR 0xD1, CHR 0x88, CHR 0xD0, CHR 0xB5, CHR 0xD0, CHR 0xBD,
      CHR 0xD0, CHR 0xB8, CHR 0xD0, CHR 0xB9]"

subsection \<open>The function \<^verbatim>\<open>solve_quadratic\<close> before it is decorated\<close>

text \<open>\<^verbatim>\<open>discriminant = b**2 - 4*a*c\<close>, evaluated from left to right.\<close>

definition discriminant ::
  "(rat \<Rightarrow> f64) \<Rightarrow> number \<Rightarrow> number \<Rightarrow> number \<Rightarrow> exn + number" where
  "discriminant pow2 a b c =
     bindE (num_pow2 pow2 b) (\<lambda>b2.
     bindE (num_mul (IntNum 4) a) (\<lambda>fa.
     bindE (num_mul fa c) (\<lambda>fac.
     num_sub b2 fac)))"

text \<open>\<^verbatim>\<open>(-b + sqrt_disc) / (2*a)\<close> and \<^verbatim>\<open>(-b - sqrt_disc) / (2*a)\<close>\<close>

definition root_plus :: "number \<Rightarrow> number \<Rightarrow> number \<Rightarrow> exn + number" where
  "root_plus a b sqrt_disc =
     bindE (num_add (num_neg b) sqrt_disc) (\<lambda>s.
     bindE (num_mul (IntNum 2) a) (\<lambda>ta.
     num_truediv s ta))"

definition root_minus :: "number \<Rightarrow> number \<Rightarrow> number \<Rightarrow> exn + number" where
  "root_minus a b sqrt_disc =
     bindE (num_sub (num_neg b) sqrt_disc) (\<lambda>s.
     bindE (num_mul (IntNum 2) a) (\<lambda>ta.
     num_truediv s ta))"

text \<open>\<^verbatim>\<open>-c / b\<close>, the root of the linear equation, and \<^verbatim>\<open>-b / (2*a)\<close>, the double root.\<close>

definition linear_root :: "number \<Rightarrow> number \<Rightarrow> exn + number" where
  "linear_root b c = num_truediv (num_neg c) b"

definition double_root :: "number \<Rightarrow> number \<Rightarrow> exn + number" where
  "double_root a b = bindE (num_mul (IntNum 2) a) (\<lambda>ta. num_truediv (num_neg b) ta)"

text \<open>The body of the function, once the three arguments are known to be numbers.\<close>

definition solve_numbers ::
  "(rat \<Rightarrow> f64) \<Rightarrow> number \<Rightarrow> number \<Rightarrow> number \<Rightarrow> exn + pyval" where
  "solve_numbers pow2 a b c =
     (if num_eq0 a then
        (if num_eq0 b then
           (if num_eq0 c then Inl (Exn ValueError msg_infinitely_many)
            else Inr (PyTuple []))
         else bindE (linear_root b c) (\<lambda>x. Inr (PyTuple [of_number x])))
      else
        bindE (discriminant pow2 a b c) (\<lambda>d.
          if num_lt0 d then Inr (PyTuple [])
          else if num_eq0 d then
            bindE (double_root a b) (\<lambda>x. Inr (PyTuple [of_number x]))
          else
            bindE (math_sqrt d) (\<lambda>sqrt_disc.
            bindE (root_plus a b sqrt_disc) (\<lambda>x1.
            bindE (root_minus a b sqrt_disc) (\<lambda>x2.
            Inr (PyTuple [of_number x1, of_number x2]))))))"

text \<open>
  \<^verbatim>\<open>solve_quadratic(a, b, c)\<close> as the \<^verbatim>\<open>def\<close> writes it (the function the decorator
  wraps), with the C library's square \<open>pow2\<close>. Past the \<^verbatim>\<open>isinstance\<close> test each argument
  is a number, and \<open>as_number\<close> gives it.
\<close>

definition solve_quadratic_func ::
  "(rat \<Rightarrow> f64) \<Rightarrow> pyval \<Rightarrow> pyval \<Rightarrow> pyval \<Rightarrow> exn + pyval" where
  "solve_quadratic_func pow2 a b c =
     (if \<not> list_all isinstance_number [a, b, c]
      then Inl (Exn TypeError msg_coefficients)
      else solve_numbers pow2 (the (as_number a)) (the (as_number b)) (the (as_number c)))"

subsection \<open>The float range and the arithmetic of the roots, in closed form\<close>

text \<open>
  The largest binary64 value is \<open>2\<^sup>1\<^sup>0\<^sup>2\<^sup>4 - 2\<^sup>9\<^sup>7\<^sup>1\<close>. An exact result is within the float
  range when it rounds to a finite float: when its magnitude is below
  \<open>2\<^sup>1\<^sup>0\<^sup>2\<^sup>4 - 2\<^sup>9\<^sup>7\<^sup>0\<close>, half a unit in the last place above the largest value.
\<close>

definition in_float_range :: "rat \<Rightarrow> bool" where
  "in_float_range x = (\<bar>x\<bar> < 2 ^ 1024 - 2 ^ 970)"

text \<open>A number converts to float: it is a float, or an int within the float range.\<close>

fun fits :: "number \<Rightarrow> bool" where
  "fits (IntNum n) = in_float_range (of_int n)"
| "fits (FloatNum v) = True"

text \<open>The float of a number that converts: a float is itself, an int is rounded.\<close>

fun float_of :: "number \<Rightarrow> f64" where
  "float_of (IntNum n) = Fin (nearest (of_int n))"
| "float_of (FloatNum v) = v"

fun is_float :: "number \<Rightarrow> bool" where
  "is_float (IntNum n) = False"
| "is_float (FloatNum v) = True"

text \<open>\<^verbatim>\<open>2*a\<close>: an int for an int, the float product for a float.\<close>

fun twice :: "number \<Rightarrow> number" where
  "twice (IntNum k) = IntNum (2 * k)"
| "twice (FloatNum v) = FloatNum (f_mul (Fin 2) v)"

text \<open>The square root of a float that is not negative (of NaN it is NaN).\<close>

fun sqrt_float :: "f64 \<Rightarrow> f64" where
  "sqrt_float (Fin x) = Fin (sqrt_nearest x)"
| "sqrt_float v = v"

subsection \<open>The decorator \<^verbatim>\<open>solve_quadratic_logger\<close>\<close>

text \<open>
  \<^verbatim>\<open>len(result)\<close> and \<^verbatim>\<open>result[i]\<close>, which the decorator applies to whatever the wrapped
  function returns. A str is taken to be ASCII (one byte for each character).
\<close>

fun py_type :: "pyval \<Rightarrow> string" where
  "py_type PyNone = ''NoneType''"
| "py_type (PyBool b) = ''bool''"
| "py_type (PyInt n) = ''int''"
| "py_type (PyFloat x) = ''float''"
| "py_type (PyStr s) = ''str''"
| "py_type (PyTuple xs) = ''tuple''"

fun py_len :: "pyval \<Rightarrow> exn + nat" where
  "py_len (PyTuple xs) = Inr (length xs)"
| "py_len (PyStr s) = Inr (length s)"
| "py_len v = Inl (Exn TypeError (''object of type '' @ quoted (py_type v) @ '' has no len()''))"

fun py_item :: "pyval \<Rightarrow> nat \<Rightarrow> exn + pyval" where
  "py_item (PyTuple xs) i =
     (if i < length xs then Inr (xs ! i) else Inl (Exn IndexError ''tuple index out of range''))"
| "py_item (PyStr s) i =
     (if i < length s then Inr (PyStr [s ! i])
      else Inl (Exn IndexError ''string index out of range''))"
| "py_item v i = Inl (Exn TypeError (quoted (py_type v) @ '' object is not subscriptable''))"

text \<open>
  \<^verbatim>\<open>format(v, ".2f")\<close>, as the f-strings apply it: \<open>fmt\<close> is the text of a number with two
  decimal places; a str, a tuple and \<^verbatim>\<open>None\<close> do not take the format.
\<close>

fun format_2f :: "(number \<Rightarrow> string) \<Rightarrow> pyval \<Rightarrow> exn + string" where
  "format_2f fmt (PyBool b) = Inr (fmt (IntNum (if b then 1 else 0)))"
| "format_2f fmt (PyInt n) = Inr (fmt (IntNum n))"
| "format_2f fmt (PyFloat x) = Inr (fmt (FloatNum x))"
| "format_2f fmt (PyStr s) =
     Inl (Exn ValueError (''Unknown format code '' @ quoted ''f'' @ '' for object of type ''
                            @ quoted ''str''))"
| "format_2f fmt v =
     Inl (Exn TypeError (''unsupported format string passed to '' @ py_type v @ ''.__format__''))"

text \<open>
  \<^verbatim>\<open>inner(a, b, c)\<close> of \<^verbatim>\<open>solve_quadratic_logger(func, handle=handle)\<close>. \<open>str_val\<close> is
  \<^verbatim>\<open>str\<close> on a value (what \<^verbatim>\<open>{a}\<close> and \<^verbatim>\<open>{result}\<close> print), \<open>fmt\<close> the two-decimal format of
  a number and \<open>str_exc\<close> is \<^verbatim>\<open>str(e)\<close>. The start emission stands before the \<^verbatim>\<open>try\<close>; the
  call, the emission that classifies the result and the emission of the result stand in
  it. An f-string is evaluated before the handle is called, so a result that cannot be
  formatted raises before anything is emitted for it.
\<close>

definition solve_quadratic_logger_inner ::
  "(pyval \<Rightarrow> string) \<Rightarrow> (number \<Rightarrow> string) \<Rightarrow> (exn \<Rightarrow> string)
    \<Rightarrow> (pyval \<Rightarrow> pyval \<Rightarrow> pyval \<Rightarrow> exn + pyval) \<Rightarrow> sink
    \<Rightarrow> pyval \<Rightarrow> pyval \<Rightarrow> pyval \<Rightarrow> sink \<times> (exn + pyval)" where
  "solve_quadratic_logger_inner str_val fmt str_exc func handle a b c =
    (let is_logging_obj = hasattr handle ''info'' \<and> hasattr handle ''error'';
         start_msg = ''INFO: Calling solve_quadratic(a='' @ str_val a @ '', b='' @ str_val b
                       @ '', c='' @ str_val c @ '')\<newline>'';
         call = ''solve_quadratic('' @ str_val a @ '', '' @ str_val b @ '', '' @ str_val c @ '')''
     in
     case (if is_logging_obj
           then handle_info handle (''Calling solve_quadratic(a='' @ str_val a @ '', b=''
                                      @ str_val b @ '', c='' @ str_val c @ '')'')
           else handle_write handle start_msg) of
       Inl e \<Rightarrow> (handle, Inl e)
     | Inr h1 \<Rightarrow>
         (case
            (case func a b c of
               Inl e \<Rightarrow> (h1, Inl e)
             | Inr result \<Rightarrow>
                 (case
                    (if result = PyTuple [] then
                       (if is_logging_obj
                        then handle_warning h1 (call @ '' has no real solutions.'')
                        else handle_write h1
                               (''WARNING: '' @ call @ '' has no real solutions.\<newline>''))
                     else
                       bindE (py_len result) (\<lambda>n.
                         if n = 1 then
                           bindE (py_item result 0) (\<lambda>r0.
                           bindE (format_2f fmt r0) (\<lambda>s0.
                             if is_logging_obj
                             then handle_info h1 (call @ '' has one solution: x = '' @ s0)
                             else handle_write h1
                                    (''INFO: '' @ call @ '' has one solution: x = '' @ s0
                                       @ ''\<newline>'')))
                         else
                           bindE (py_item result 0) (\<lambda>r0.
                           bindE (format_2f fmt r0) (\<lambda>s0.
                           bindE (py_item result 1) (\<lambda>r1.
                           bindE (format_2f fmt r1) (\<lambda>s1.
                             if is_logging_obj
                             then handle_info h1 (call @ '' has two solutions: x1 = '' @ s0
                                                    @ '', x2 = '' @ s1)
                             else handle_write h1
                                    (''INFO: '' @ call @ '' has two solutions: x1 = '' @ s0
                                       @ '', x2 = '' @ s1 @ ''\<newline>'')))))))
                  of
                    Inl e \<Rightarrow> (h1, Inl e)
                  | Inr h2 \<Rightarrow>
                      (let success_msg = ''INFO: solve_quadratic returned '' @ str_val result
                                           @ ''\<newline>''
                       in case (if is_logging_obj
                                then handle_info h2 (''solve_quadratic returned '' @ str_val result)
                                else handle_write h2 success_msg) of
                            Inl e \<Rightarrow> (h2, Inl e)
                          | Inr h3 \<Rightarrow> (h3, Inr result))))
          of
            (h2, Inr result) \<Rightarrow> (h2, Inr result)
          | (h2, Inl e) \<Rightarrow>
              if is_Exception e then
                (let error_msg = ''ERROR: solve_quadratic raised '' @ type_name (exc_class e)
                                   @ '': '' @ str_exc e @ ''\<newline>''
                 in case (if is_logging_obj
                          then handle_error h2 (''solve_quadratic raised ''
                                                  @ type_name (exc_class e) @ '': '' @ str_exc e)
                          else handle_write h2 error_msg) of
                      Inl e' \<Rightarrow> (h2, Inl e')
                    | Inr h3 \<Rightarrow> (h3, Inl e))
              else (h2, Inl e)))"

text \<open>
  \<^verbatim>\<open>solve_quadratic\<close> as the module binds it: the function above under
  \<^verbatim>\<open>@solve_quadratic_logger\<close>, whose handle is then \<^verbatim>\<open>sys.stdout\<close>, a stream.
\<close>

definition solve_quadratic ::
  "(rat \<Rightarrow> f64) \<Rightarrow> (pyval \<Rightarrow> string) \<Rightarrow> (number \<Rightarrow> string) \<Rightarrow> (exn \<Rightarrow> string)
    \<Rightarrow> string list \<Rightarrow> pyval \<Rightarrow> pyval \<Rightarrow> pyval \<Rightarrow> sink \<times> (exn + pyval)" where
  "solve_quadratic pow2 str_val fmt str_exc stdout a b c =
     solve_quadratic_logger_inner str_val fmt str_exc (solve_quadratic_func pow2)
       (Stream stdout) a b c"

subsection \<open>The events of a solved call, as the specification words them\<close>





section \<open>Properties of the decorator\<close>



lemma logger_inner_passes_base_exception:
  assumes "func args kwargs = Inl e" and "\<not> is_Exception e"
  shows "logger_inner repr str_exc name func handle args kwargs =
           (case handle of
              Logger rs \<Rightarrow> Logger (rs @ [start_event repr name args kwargs])
            | Stream ws \<Rightarrow> Stream (ws @ map stream_line [start_event repr name args kwargs]),
            Inl e)"
  using assms
  by (cases handle)
     (simp_all add: logger_inner_def Let_def start_event_def rendered_args_def stream_line_def)












section \<open>Properties of the rate fetch\<close>

lemma loop_step_ok:
  assumes "rate_of valute code = Some v"
  shows "get_currencies_loop (JObj valute) (code # codes) result =
           get_currencies_loop (JObj valute) codes (AList.update code v result)"
proof -
  from assms obtain info where entry: "map_of valute code = Some (JObj info)"
    by (auto simp: rate_of_def split: option.splits json.splits)
  with assms have v: "map_of info ''Value'' = Some v" "isinstance_int_float v"
    by (auto simp: rate_of_def split: option.splits if_splits)
  from v(2) have "v \<noteq> JNull" by auto
  with entry v show ?thesis by simp
qed

lemma loop_step_violation:
  assumes "records valute" and "rate_of valute code = None"
  shows "get_currencies_loop (JObj valute) (code # codes) result =
           Inl (raised_as (violation valute code))"
proof (cases "map_of valute code")
  case None
  then show ?thesis by (simp add: violation_def)
next
  case (Some entry)
  then have "(code, entry) \<in> set valute" by (rule map_of_SomeD)
  with assms(1) have "case entry of JObj info \<Rightarrow> True | _ \<Rightarrow> False"
    by (force simp: records_def list_all_iff)
  then obtain info where info: "entry = JObj info"
    by (cases entry) simp_all
  show ?thesis
  proof (cases "map_of info ''Value''")
    case None
    with Some info show ?thesis by (simp add: violation_def)
  next
    case (Some v)
    with assms(2) \<open>map_of valute code = Some entry\<close> info
    have "\<not> isinstance_int_float v"
      by (auto simp: rate_of_def split: if_splits)
    with Some \<open>map_of valute code = Some entry\<close> info show ?thesis
      by (simp add: violation_def)
  qed
qed

lemma loop_all_ok:
  assumes "\<forall>c\<in>set codes. rate_of valute c \<noteq> None"
  shows "\<exists>r. get_currencies_loop (JObj valute) codes acc = Inr r \<and>
              map fst r = map fst acc
                @ filter (\<lambda>c. c \<notin> set (map fst acc)) (insertion_order codes) \<and>
              (\<forall>c. map_of r c = (if c \<in> set codes then rate_of valute c else map_of acc c))"
  using assms
proof (induction codes arbitrary: acc)
  case Nil
  then show ?case by simp
next
  case (Cons code codes)
  then obtain v where v: "rate_of valute code = Some v" by auto
  from Cons.prems have rest: "\<forall>c\<in>set codes. rate_of valute c \<noteq> None" by simp
  from Cons.IH [OF rest, of "AList.update code v acc"]
  obtain r where r: "get_currencies_loop (JObj valute) codes (AList.update code v acc) = Inr r"
      "map fst r = map fst (AList.update code v acc)
         @ filter (\<lambda>c. c \<notin> set (map fst (AList.update code v acc))) (insertion_order codes)"
      "\<forall>c. map_of r c =
         (if c \<in> set codes then rate_of valute c else map_of (AList.update code v acc) c)"
    by blast
  have keys: "map fst r = map fst acc
      @ filter (\<lambda>c. c \<notin> set (map fst acc)) (insertion_order (code # codes))"
  proof (cases "code \<in> set (map fst acc)")
    case True
    have "filter (\<lambda>c. c \<notin> set (map fst acc)) (filter (\<lambda>y. y \<noteq> code) (insertion_order codes))
            = filter (\<lambda>c. c \<notin> set (map fst acc)) (insertion_order codes)"
      using True by (auto intro: filter_cong)
    with True r(2) show ?thesis by (simp add: update_keys)
  next
    case False
    have "filter (\<lambda>c. c \<notin> set (map fst acc)) (filter (\<lambda>y. y \<noteq> code) (insertion_order codes))
            = filter (\<lambda>c. c \<notin> set (map fst acc @ [code])) (insertion_order codes)"
      by (auto intro: filter_cong)
    with False r(2) show ?thesis by (simp add: update_keys)
  qed
  have vals: "\<forall>c. map_of r c =
      (if c \<in> set (code # codes) then rate_of valute c else map_of acc c)"
    using r(3) v by (auto simp: update_conv')
  from r(1) v have "get_currencies_loop (JObj valute) (code # codes) acc = Inr r"
    by (simp add: loop_step_ok del: get_currencies_loop.simps)
  with keys vals show ?case by blast
qed

lemma loop_prefix_ok:
  assumes "\<forall>c\<in>set pre. rate_of valute c \<noteq> None"
  shows "\<exists>acc'. get_currencies_loop (JObj valute) (pre @ rest) acc =
                 get_currencies_loop (JObj valute) rest acc'"
  using assms
proof (induction pre arbitrary: acc)
  case Nil
  show ?case by auto
next
  case (Cons c pre)
  then obtain v where "rate_of valute c = Some v" by auto
  then have "get_currencies_loop (JObj valute) ((c # pre) @ rest) acc =
               get_currencies_loop (JObj valute) (pre @ rest) (AList.update c v acc)"
    using loop_step_ok [of valute c v "pre @ rest" acc] by simp
  with Cons show ?case by simp
qed

lemma loop_first_violation:
  assumes "\<forall>c\<in>set pre. rate_of valute c \<noteq> None" and "records valute"
    and "rate_of valute code = None"
  shows "get_currencies_loop (JObj valute) (pre @ code # post) acc =
           Inl (raised_as (violation valute code))"
  using loop_prefix_ok [OF assms(1), of "code # post" acc] loop_step_violation [OF assms(2,3)]
  by auto

lemma get_currencies_body:
  assumes "http url = Body (JObj doc)" and "map_of doc ''Valute'' = Some valute_data"
  shows "get_currencies http codes url = get_currencies_loop valute_data codes []"
  using assms by (simp add: get_currencies_def)

lemma set_insertion_order: "set (insertion_order xs) = set xs"
  by (induction xs) auto

lemma insertion_order_distinct: "distinct xs \<Longrightarrow> insertion_order xs = xs"
proof (induction xs)
  case Nil
  then show ?case by simp
next
  case (Cons x xs)
  then have "filter (\<lambda>y. y \<noteq> x) xs = xs" by (auto intro: filter_True)
  with Cons show ?case by simp
qed

lemma first_violation_exists:
  assumes "\<not> (\<forall>c\<in>set codes. P c)"
  shows "\<exists>pre c post. codes = pre @ c # post \<and> (\<forall>c'\<in>set pre. P c') \<and> \<not> P c"
proof -
  from assms obtain c where "c \<in> set codes" "\<not> P c" by blast
  then show ?thesis
    using split_list_first_prop [of codes "\<lambda>c. \<not> P c"] by auto
qed

text \<open>
  C6. Let the payload be well formed: a JSON object whose \<^verbatim>\<open>Valute\<close> field is an object
  whose entries are records. Then a fetch that succeeds returns a mapping whose keys are
  exactly the requested codes, in the order of their first occurrence in the list (the list
  itself when no code is repeated), each bound to the numeric \<^verbatim>\<open>Value\<close> of its record; the
  fetch does succeed when every requested code has a numeric \<^verbatim>\<open>Value\<close>; and otherwise
  the fetch returns no mapping at all: it fails with the violation of the first code in
  the list that has none.
\<close>

theorem get_currencies_all_or_nothing:
  assumes "http url = Body (JObj doc)"
    and "map_of doc ''Valute'' = Some (JObj valute)"
    and "records valute"
  shows "(\<forall>r. get_currencies http codes url = Inr r \<longrightarrow>
            map fst r = insertion_order codes \<and>
            (distinct codes \<longrightarrow> map fst r = codes) \<and>
            set (map fst r) = set codes \<and>
            (\<forall>c\<in>set codes. rate_of valute c \<noteq> None \<and> map_of r c = rate_of valute c)) \<and>
         ((\<forall>c\<in>set codes. rate_of valute c \<noteq> None) \<longrightarrow>
            (\<exists>r. get_currencies http codes url = Inr r)) \<and>
         (codes = pre @ c # post \<and> (\<forall>c'\<in>set pre. rate_of valute c' \<noteq> None) \<and>
          rate_of valute c = None \<longrightarrow>
            get_currencies http codes url = Inl (raised_as (violation valute c)))"
proof -
  have body: "get_currencies http cs url = get_currencies_loop (JObj valute) cs []" for cs
    using assms(1,2) by (rule get_currencies_body)
  have fails: "get_currencies http codes url = Inl (raised_as (violation valute c))"
    if "codes = pre @ c # post" "\<forall>c'\<in>set pre. rate_of valute c' \<noteq> None"
       "rate_of valute c = None" for pre c post
    using that loop_first_violation [OF that(2) assms(3) that(3), of post "[]"]
    by (simp add: body)
  have succeeds: "\<exists>r. get_currencies http codes url = Inr r \<and>
        map fst r = insertion_order codes \<and>
        (\<forall>c. map_of r c = (if c \<in> set codes then rate_of valute c else None))"
    if "\<forall>c\<in>set codes. rate_of valute c \<noteq> None"
    using loop_all_ok [OF that, of "[]"] by (simp add: body cong: if_cong)
  have all_ok: "\<forall>c\<in>set codes. rate_of valute c \<noteq> None"
    if "get_currencies http codes url = Inr r" for r
  proof (rule ccontr)
    assume "\<not> (\<forall>c\<in>set codes. rate_of valute c \<noteq> None)"
    from first_violation_exists [OF this]
    obtain pre c post where "codes = pre @ c # post"
      "\<forall>c'\<in>set pre. rate_of valute c' \<noteq> None" "rate_of valute c = None"
      by auto
    from fails [OF this] that show False by simp
  qed
  have first: "map fst r = insertion_order codes \<and>
            (distinct codes \<longrightarrow> map fst r = codes) \<and>
            set (map fst r) = set codes \<and>
            (\<forall>c\<in>set codes. rate_of valute c \<noteq> None \<and> map_of r c = rate_of valute c)"
    if r: "get_currencies http codes url = Inr r" for r
  proof -
    from succeeds [OF all_ok [OF r]] r
    have keys: "map fst r = insertion_order codes"
      and vals: "\<forall>c. map_of r c = (if c \<in> set codes then rate_of valute c else None)"
      by auto
    from keys have "set (map fst r) = set codes"
      by (simp only: set_insertion_order)
    with keys vals all_ok [OF r] show ?thesis
      by (simp add: insertion_order_distinct)
  qed
  from first succeeds fails show ?thesis by blast
qed

theorem get_currencies_all_or_nothing_witness:
  "example_http default_url = Body (JObj example_doc) \<and>
   map_of example_doc ''Valute'' = Some (JObj example_valute) \<and>
   records example_valute \<and>
   get_currencies example_http [''EUR'', ''USD'', ''EUR''] default_url
     = Inr [(''EUR'', JInt 100), (''USD'', JFloat (Fin (181 / 2)))] \<and>
   map fst [(''EUR'', JInt 100), (''USD'', JFloat (Fin (181 / 2)))]
     = insertion_order [''EUR'', ''USD'', ''EUR''] \<and>
   get_currencies example_http ([''USD''] @ ''ZZZ'' # [''XXX'']) default_url
     = Inl (Exn KeyError (msg_currency_open @ ''ZZZ'' @ msg_currency_close)) \<and>
   get_currencies example_http ([''USD''] @ ''XXX'' # [''ZZZ'']) default_url
     = Inl (Exn TypeError (msg_rate_open @ ''XXX'' @ msg_rate_close))"
proof -
  have h1: "example_http default_url = Body (JObj example_doc)"
    by (simp add: example_http_def)
  have h2: "map_of example_doc ''Valute'' = Some (JObj example_valute)"
    by (simp add: example_doc_def)
  have h3: "records example_valute"
    by (simp add: records_def example_valute_def)
  have ok: "rate_of example_valute ''USD'' \<noteq> None"
    by (simp add: rate_of_def example_valute_def)
  have bad: "rate_of example_valute ''ZZZ'' = None" "rate_of example_valute ''XXX'' = None"
    "violation example_valute ''ZZZ'' = UnknownCurrency ''ZZZ''"
    "violation example_valute ''XXX'' = InvalidValue ''XXX''"
    by (simp_all add: rate_of_def violation_def example_valute_def)
  note T = get_currencies_all_or_nothing
    [where http = example_http and url = default_url, OF h1 h2 h3]
  have run: "get_currencies example_http [''EUR'', ''USD'', ''EUR''] default_url
     = Inr [(''EUR'', JInt 100), (''USD'', JFloat (Fin (181 / 2)))]"
    by (simp add: get_currencies_def example_http_def example_doc_def example_valute_def)
  from T [of "[''EUR'', ''USD'', ''EUR'']"] run
  have keys: "map fst [(''EUR'', JInt 100), (''USD'', JFloat (Fin (181 / 2)))]
     = insertion_order [''EUR'', ''USD'', ''EUR'']"
    by blast
  from T [of "[''USD''] @ ''ZZZ'' # [''XXX'']" "[''USD'']" "''ZZZ''" "[''XXX'']"] ok bad(1)
  have "get_currencies example_http ([''USD''] @ ''ZZZ'' # [''XXX'']) default_url
     = Inl (raised_as (violation example_valute ''ZZZ''))"
    by simp
  then have second: "get_currencies example_http ([''USD''] @ ''ZZZ'' # [''XXX'']) default_url
     = Inl (Exn KeyError (msg_currency_open @ ''ZZZ'' @ msg_currency_close))"
    by (simp only: bad raised_as.simps)
  from T [of "[''USD''] @ ''XXX'' # [''ZZZ'']" "[''USD'']" "''XXX''" "[''ZZZ'']"] ok bad(2)
  have "get_currencies example_http ([''USD''] @ ''XXX'' # [''ZZZ'']) default_url
     = Inl (raised_as (violation example_valute ''XXX''))"
    by simp
  then have third: "get_currencies example_http ([''USD''] @ ''XXX'' # [''ZZZ'']) default_url
     = Inl (Exn TypeError (msg_rate_open @ ''XXX'' @ msg_rate_close))"
    by (simp only: bad raised_as.simps)
  from h1 h2 h3 run keys second third show ?thesis by blast
qed

lemma msg_no_valute_not_currency: "msg_no_valute \<noteq> msg_currency_open @ code @ msg_currency_close"
  by (simp add: msg_no_valute_def msg_currency_open_def)

lemma inj_raised_as: "inj raised_as"
proof (rule injI)
  fix x y
  assume "raised_as x = raised_as y"
  then show "x = y"
    using msg_no_valute_not_currency msg_no_valute_not_currency [symmetric]
    by (cases x; cases y) auto
qed

text \<open>
  C7. Each violation fails with its own member of the taxonomy. A payload object without
  the field \<^verbatim>\<open>Valute\<close> fails with MissingField. When the codes before it in the list are
  all served, a requested code that the \<^verbatim>\<open>Valute\<close> mapping does not hold fails with
  UnknownCurrency of that code, and a code whose record has no \<^verbatim>\<open>Value\<close>, or a \<^verbatim>\<open>Value\<close>
  that is not numeric (not an instance of int or float, as the code tests it; a bool is an
  int in Python), fails with InvalidValue of that code. The exceptions raised for different
  members of the taxonomy are different, so the caller can tell the members apart, and
  read the code back: MissingField and UnknownCurrency by the message of the KeyError,
  InvalidValue by its class.
\<close>

theorem get_currencies_failure_taxonomy:
  "(http url = Body (JObj doc) \<and> map_of doc ''Valute'' = None \<longrightarrow>
      get_currencies http codes url = Inl (raised_as MissingField)) \<and>
   (http url = Body (JObj doc) \<and> map_of doc ''Valute'' = Some (JObj valute) \<and>
    (\<forall>c\<in>set pre. rate_of valute c \<noteq> None) \<and> map_of valute code = None \<longrightarrow>
      get_currencies http (pre @ code # post) url = Inl (raised_as (UnknownCurrency code))) \<and>
   (http url = Body (JObj doc) \<and> map_of doc ''Valute'' = Some (JObj valute) \<and>
    (\<forall>c\<in>set pre. rate_of valute c \<noteq> None) \<and> map_of valute code = Some (JObj info) \<and>
    (map_of info ''Value'' = None \<or>
     (\<exists>v. map_of info ''Value'' = Some v \<and> \<not> isinstance_int_float v)) \<longrightarrow>
      get_currencies http (pre @ code # post) url = Inl (raised_as (InvalidValue code))) \<and>
   inj raised_as"
proof -
  have missing: "get_currencies http codes url = Inl (raised_as MissingField)"
    if "http url = Body (JObj doc)" "map_of doc ''Valute'' = None"
    using that by (simp add: get_currencies_def)
  have unknown: "get_currencies http (pre @ code # post) url
      = Inl (raised_as (UnknownCurrency code))"
    if "http url = Body (JObj doc)" "map_of doc ''Valute'' = Some (JObj valute)"
      "\<forall>c\<in>set pre. rate_of valute c \<noteq> None" "map_of valute code = None"
  proof -
    from loop_prefix_ok [OF that(3), of "code # post" "[]"] that(4)
    have "get_currencies_loop (JObj valute) (pre @ code # post) []
        = Inl (raised_as (UnknownCurrency code))"
      by auto
    with get_currencies_body [where http = http and url = url, OF that(1,2)] show ?thesis by simp
  qed
  have invalid: "get_currencies http (pre @ code # post) url
      = Inl (raised_as (InvalidValue code))"
    if "http url = Body (JObj doc)" "map_of doc ''Valute'' = Some (JObj valute)"
      "\<forall>c\<in>set pre. rate_of valute c \<noteq> None" "map_of valute code = Some (JObj info)"
      "map_of info ''Value'' = None \<or>
        (\<exists>v. map_of info ''Value'' = Some v \<and> \<not> isinstance_int_float v)"
  proof -
    from loop_prefix_ok [OF that(3), of "code # post" "[]"] that(4,5)
    have "get_currencies_loop (JObj valute) (pre @ code # post) []
        = Inl (raised_as (InvalidValue code))"
      by auto
    with get_currencies_body [where http = http and url = url, OF that(1,2)] show ?thesis by simp
  qed
  from missing unknown invalid inj_raised_as show ?thesis by blast
qed

theorem get_currencies_failure_taxonomy_witness:
  "get_currencies (\<lambda>url. Body (JObj [(''slideshow'', JObj [])])) [''USD''] default_url
     = Inl (Exn KeyError msg_no_valute) \<and>
   get_currencies example_http ([''USD''] @ ''ZZZ'' # [''EUR'']) default_url
     = Inl (Exn KeyError (msg_currency_open @ ''ZZZ'' @ msg_currency_close)) \<and>
   get_currencies example_http ([''EUR''] @ ''XXX'' # []) default_url
     = Inl (Exn TypeError (msg_rate_open @ ''XXX'' @ msg_rate_close)) \<and>
   raised_as MissingField \<noteq> raised_as (UnknownCurrency ''ZZZ'')"
proof -
  have h1: "example_http default_url = Body (JObj example_doc)"
    by (simp add: example_http_def)
  have h2: "map_of example_doc ''Valute'' = Some (JObj example_valute)"
    by (simp add: example_doc_def)
  have ok: "rate_of example_valute ''EUR'' \<noteq> None" "rate_of example_valute ''USD'' \<noteq> None"
    by (simp_all add: rate_of_def example_valute_def)
  have zzz: "map_of example_valute ''ZZZ'' = None"
    by (simp add: example_valute_def)
  have xxx: "map_of example_valute ''XXX''
      = Some (JObj [(''Nominal'', JInt 1), (''Value'', JStr ''n/a'')])"
    by (simp add: example_valute_def)
  have first: "get_currencies (\<lambda>url. Body (JObj [(''slideshow'', JObj [])])) [''USD''] default_url
     = Inl (Exn KeyError msg_no_valute)"
    using get_currencies_failure_taxonomy
      [where http = "\<lambda>url. Body (JObj [(''slideshow'', JObj [])])" and url = default_url
         and doc = "[(''slideshow'', JObj [])]" and codes = "[''USD'']"]
    by simp
  have second: "get_currencies example_http ([''USD''] @ ''ZZZ'' # [''EUR'']) default_url
     = Inl (Exn KeyError (msg_currency_open @ ''ZZZ'' @ msg_currency_close))"
    using get_currencies_failure_taxonomy
      [where http = example_http and url = default_url and doc = example_doc
         and valute = example_valute and pre = "[''USD'']" and code = "''ZZZ''"
         and post = "[''EUR'']"] h1 h2 ok zzz
    by simp
  have third: "get_currencies example_http ([''EUR''] @ ''XXX'' # []) default_url
     = Inl (Exn TypeError (msg_rate_open @ ''XXX'' @ msg_rate_close))"
    using get_currencies_failure_taxonomy
      [where http = example_http and url = default_url and doc = example_doc
         and valute = example_valute and pre = "[''EUR'']" and code = "''XXX''"
         and post = "[]" and info = "[(''Nominal'', JInt 1), (''Value'', JStr ''n/a'')]"]
      h1 h2 ok xxx
    by simp
  have "inj raised_as"
    using get_currencies_failure_taxonomy [of "\<lambda>u. NotJson" "[]" "[]" "[]" "[]" "[]" "[]" "[]" "[]"]
    by blast
  then have fourth: "raised_as MissingField \<noteq> raised_as (UnknownCurrency ''ZZZ'')"
    by (auto dest!: injD simp del: raised_as.simps)
  from first second third fourth show ?thesis by simp
qed

section \<open>Properties of the rounding\<close>

subsection \<open>The binade exponent\<close>

lemma two_powi_pos: "0 < (2::rat) powi e"
  by simp

lemma two_powi_mono: "e \<le> e' \<Longrightarrow> (2::rat) powi e \<le> 2 powi e'"
  by (rule power_int_increasing) simp_all

lemma ilog2_bounds:
  assumes "x \<noteq> 0"
  shows "2 powi ilog2 x \<le> \<bar>x\<bar>" and "\<bar>x\<bar> < 2 powi (ilog2 x + 1)"
proof -
  obtain p q where pq: "quotient_of \<bar>x\<bar> = (p, q)" by (cases "quotient_of \<bar>x\<bar>")
  then have q: "0 < q" by (rule quotient_of_denom_pos)
  from pq have x: "\<bar>x\<bar> = of_int p / of_int q" by (rule quotient_of_div)
  from assms have "0 < \<bar>x\<bar>" by simp
  with x q have p: "0 < p" by (simp add: zero_less_divide_iff)
  define k where "k = bitlen p - bitlen q"
  have bp: "1 \<le> bitlen p" and bq: "1 \<le> bitlen q"
    using p q by (simp_all add: bitlen_alt_def)
  from bitlen_bounds [OF p] have "(2::int) ^ nat (bitlen p - 1) \<le> p" "p < 2 ^ nat (bitlen p)"
    by simp_all
  then have "of_int ((2::int) ^ nat (bitlen p - 1)) \<le> (of_int p :: rat)"
    "(of_int p :: rat) < of_int (2 ^ nat (bitlen p))"
    by (simp_all only: of_int_le_iff of_int_less_iff)
  then have P: "2 powi (bitlen p - 1) \<le> (of_int p :: rat)" "(of_int p :: rat) < 2 powi bitlen p"
    using bp by (simp_all add: power_int_def)
  from bitlen_bounds [OF q] have "(2::int) ^ nat (bitlen q - 1) \<le> q" "q < 2 ^ nat (bitlen q)"
    by simp_all
  then have "of_int ((2::int) ^ nat (bitlen q - 1)) \<le> (of_int q :: rat)"
    "(of_int q :: rat) < of_int (2 ^ nat (bitlen q))"
    by (simp_all only: of_int_le_iff of_int_less_iff)
  then have Q: "2 powi (bitlen q - 1) \<le> (of_int q :: rat)" "(of_int q :: rat) < 2 powi bitlen q"
    using bq by (simp_all add: power_int_def)
  have q': "0 < (of_int q :: rat)" using q by simp
  have lower: "2 powi (k - 1) \<le> \<bar>x\<bar>"
  proof -
    have "2 powi (k - 1) * of_int q \<le> 2 powi (k - 1) * (2 powi bitlen q :: rat)"
      using Q(2) by (intro mult_left_mono) simp_all
    also have "\<dots> = 2 powi (bitlen p - 1)"
      by (simp add: k_def power_int_add [symmetric])
    also have "\<dots> \<le> of_int p" by (rule P(1))
    finally show ?thesis using q' by (simp add: x pos_le_divide_eq)
  qed
  have upper: "\<bar>x\<bar> < 2 powi (k + 1)"
  proof -
    have "of_int p < (2 powi bitlen p :: rat)" by (rule P(2))
    also have "\<dots> = 2 powi (k + 1) * 2 powi (bitlen q - 1)"
      by (simp add: k_def power_int_add [symmetric])
    also have "\<dots> \<le> 2 powi (k + 1) * of_int q"
      using Q(1) by (intro mult_left_mono) simp_all
    finally show ?thesis using q' by (simp add: x pos_divide_less_eq)
  qed
  have il: "ilog2 x = (if 2 powi k \<le> \<bar>x\<bar> then k else k - 1)"
    by (simp add: ilog2_def pq k_def Let_def)
  show "2 powi ilog2 x \<le> \<bar>x\<bar>"
    using lower by (simp add: il)
  show "\<bar>x\<bar> < 2 powi (ilog2 x + 1)"
    using upper by (auto simp: il)
qed

lemma ilog2_unique:
  assumes "2 powi e \<le> \<bar>x\<bar>" and "\<bar>x\<bar> < 2 powi (e + 1)"
  shows "ilog2 x = e"
proof -
  have "0 < \<bar>x\<bar>" using assms(1) two_powi_pos [of e] by linarith
  then have "x \<noteq> 0" by simp
  note b = ilog2_bounds [OF this]
  have "\<not> ilog2 x < e"
  proof
    assume "ilog2 x < e"
    then have "(2::rat) powi (ilog2 x + 1) \<le> 2 powi e" by (intro two_powi_mono) simp
    with b(2) assms(1) show False by simp
  qed
  moreover have "\<not> e < ilog2 x"
  proof
    assume "e < ilog2 x"
    then have "(2::rat) powi (e + 1) \<le> 2 powi ilog2 x" by (intro two_powi_mono) simp
    with b(1) assms(2) show False by simp
  qed
  ultimately show ?thesis by simp
qed

lemma ilog2_abs: "ilog2 (- x) = ilog2 x"
  by (simp add: ilog2_def)

lemma ilog2_mono:
  assumes "x \<noteq> 0" and "\<bar>x\<bar> \<le> \<bar>y\<bar>"
  shows "ilog2 x \<le> ilog2 y"
proof (rule ccontr)
  assume "\<not> ilog2 x \<le> ilog2 y"
  then have "(2::rat) powi (ilog2 y + 1) \<le> 2 powi ilog2 x" by (intro two_powi_mono) simp
  moreover from assms have "y \<noteq> 0" by auto
  ultimately show False
    using ilog2_bounds(1) [OF assms(1)] ilog2_bounds(2) [OF \<open>y \<noteq> 0\<close>] assms(2) by simp
qed

subsection \<open>Rounding is symmetric and monotone\<close>

lemma rhe_bounds: "\<lfloor>q\<rfloor> \<le> round_half_even q" "round_half_even q \<le> \<lfloor>q\<rfloor> + 1"
  by (simp_all add: round_half_even_def Let_def)

lemma rhe_of_int [simp]: "round_half_even (of_int n) = n"
  by (simp add: round_half_even_def Let_def)

lemma rhe_mono:
  assumes "q \<le> q'"
  shows "round_half_even q \<le> round_half_even q'"
proof (cases "\<lfloor>q\<rfloor> = \<lfloor>q'\<rfloor>")
  case True
  with assms show ?thesis
    by (auto simp: round_half_even_def Let_def)
next
  case False
  with assms have "\<lfloor>q\<rfloor> + 1 \<le> \<lfloor>q'\<rfloor>"
    using floor_mono [OF assms] by linarith
  with rhe_bounds(2) [of q] rhe_bounds(1) [of q'] show ?thesis by linarith
qed

lemma rhe_ge: "of_int n \<le> q \<Longrightarrow> n \<le> round_half_even q"
  using rhe_mono [of "of_int n" q] by simp

lemma rhe_le: "q \<le> of_int n \<Longrightarrow> round_half_even q \<le> n"
  using rhe_mono [of q "of_int n"] by simp

lemma floor_minus_nonint:
  fixes q :: rat
  assumes "q \<noteq> of_int \<lfloor>q\<rfloor>"
  shows "\<lfloor>- q\<rfloor> = - \<lfloor>q\<rfloor> - 1"
proof (rule floor_unique)
  have "of_int \<lfloor>q\<rfloor> < q" using assms of_int_floor_le [of q] by linarith
  moreover have "q < of_int \<lfloor>q\<rfloor> + 1" by linarith
  ultimately show "of_int (- \<lfloor>q\<rfloor> - 1) \<le> - q" "- q < of_int (- \<lfloor>q\<rfloor> - 1) + 1"
    by simp_all
qed

lemma rhe_minus: "round_half_even (- q) = - round_half_even q"
proof (cases "q = of_int \<lfloor>q\<rfloor>")
  case True
  then obtain n where "q = of_int n" ..
  then have "- q = of_int (- n)" by simp
  then show ?thesis using \<open>q = of_int n\<close> by (simp only: rhe_of_int)
next
  case False
  note fm = floor_minus_nonint [OF False]
  show ?thesis
    by (auto simp: round_half_even_def Let_def fm)
qed

lemma ulp_exponent_minus: "ulp_exponent (- x) = ulp_exponent x"
  by (simp add: ulp_exponent_def ilog2_abs)

lemma nearest_minus: "nearest (- x) = - nearest x"
  by (simp add: nearest_def ulp_exponent_minus rhe_minus)

lemma nearest_0 [simp]: "nearest 0 = 0"
  by (simp add: nearest_def)

lemma nearest_nonneg:
  assumes "0 \<le> x"
  shows "0 \<le> nearest x"
proof (cases "x = 0")
  case True
  then show ?thesis by simp
next
  case False
  have "0 \<le> x / 2 powi ulp_exponent x" using assms by simp
  then have "0 \<le> round_half_even (x / 2 powi ulp_exponent x)"
    using rhe_ge [of 0] by simp
  then show ?thesis using False by (simp add: nearest_def)
qed

text \<open>The binade of a positive number bounds its rounding.\<close>

lemma two_powi_53: "(2::rat) powi (e + 1) = of_int (2 ^ 53) * 2 powi (e - 52)"
  using power_int_add [of "2::rat" 53 "e - 52"] by (simp add: add.commute)

lemma two_powi_52: "(2::rat) powi e = of_int (2 ^ 52) * 2 powi (e - 52)"
  using power_int_add [of "2::rat" 52 "e - 52"] by simp

lemma nearest_upper:
  assumes "0 < x"
  shows "nearest x \<le> 2 powi (max (ilog2 x) (- 1022) + 1)"
proof -
  define e where "e = max (ilog2 x) (- 1022)"
  define n where "n = round_half_even (x / 2 powi (e - 52))"
  from assms have "x \<noteq> 0" by simp
  then have nx: "nearest x = of_int n * 2 powi (e - 52)"
    by (simp add: nearest_def ulp_exponent_def e_def n_def)
  from ilog2_bounds(2) [OF \<open>x \<noteq> 0\<close>] assms have "x < 2 powi (ilog2 x + 1)" by simp
  also have "\<dots> \<le> 2 powi (e + 1)" by (intro two_powi_mono) (simp add: e_def)
  finally have "x < of_int (2 ^ 53) * 2 powi (e - 52)" by (simp only: two_powi_53)
  then have "x / 2 powi (e - 52) \<le> of_int (2 ^ 53)"
    by (simp add: pos_divide_le_eq)
  then have "n \<le> 2 ^ 53" unfolding n_def by (rule rhe_le)
  then have "(of_int n :: rat) \<le> of_int (2 ^ 53)" by (simp only: of_int_le_iff)
  then have "of_int n * 2 powi (e - 52) \<le> of_int (2 ^ 53) * (2 powi (e - 52) :: rat)"
    by (rule mult_right_mono) simp
  then have "nearest x \<le> 2 powi (e + 1)" by (simp only: nx two_powi_53)
  then show ?thesis by (simp only: e_def)
qed

lemma nearest_lower:
  assumes "0 < x" and "- 1022 \<le> ilog2 x"
  shows "2 powi ilog2 x \<le> nearest x"
proof -
  define e where "e = ilog2 x"
  define n where "n = round_half_even (x / 2 powi (e - 52))"
  from assms have "x \<noteq> 0" by simp
  then have nx: "nearest x = of_int n * 2 powi (e - 52)"
    using assms(2) by (simp add: nearest_def ulp_exponent_def e_def n_def)
  from ilog2_bounds(1) [OF \<open>x \<noteq> 0\<close>] assms have "2 powi e \<le> x" by (simp add: e_def)
  then have "of_int (2 ^ 52) * 2 powi (e - 52) \<le> x" by (simp only: two_powi_52 [symmetric])
  then have "of_int (2 ^ 52) \<le> x / 2 powi (e - 52)"
    by (simp add: pos_le_divide_eq)
  then have "2 ^ 52 \<le> n" unfolding n_def by (rule rhe_ge)
  then have "(of_int (2 ^ 52) :: rat) \<le> of_int n" by (simp only: of_int_le_iff)
  then have "of_int (2 ^ 52) * (2 powi (e - 52) :: rat) \<le> of_int n * 2 powi (e - 52)"
    by (rule mult_right_mono) simp
  then have "2 powi e \<le> nearest x" by (simp only: nx two_powi_52 [symmetric])
  then show ?thesis by (simp only: e_def)
qed

lemma nearest_mono_pos:
  assumes "0 < x" and "x \<le> y"
  shows "nearest x \<le> nearest y"
proof -
  from assms have y: "0 < y" by simp
  have il: "ilog2 x \<le> ilog2 y" using assms by (intro ilog2_mono) simp_all
  show ?thesis
  proof (cases "ulp_exponent x = ulp_exponent y")
    case True
    have "x / 2 powi ulp_exponent y \<le> y / 2 powi ulp_exponent y"
      using assms(2) by (simp add: divide_right_mono)
    then have "round_half_even (x / 2 powi ulp_exponent y)
        \<le> round_half_even (y / 2 powi ulp_exponent y)"
      by (rule rhe_mono)
    then have "(of_int (round_half_even (x / 2 powi ulp_exponent y)) :: rat)
        \<le> of_int (round_half_even (y / 2 powi ulp_exponent y))"
      by (simp only: of_int_le_iff)
    then have "of_int (round_half_even (x / 2 powi ulp_exponent y)) * 2 powi ulp_exponent y
        \<le> of_int (round_half_even (y / 2 powi ulp_exponent y)) * (2 powi ulp_exponent y :: rat)"
      by (intro mult_right_mono) simp_all
    with True assms y show ?thesis by (simp add: nearest_def)
  next
    case False
    with il have lt: "max (ilog2 x) (- 1022) < max (ilog2 y) (- 1022)"
      by (auto simp: ulp_exponent_def)
    then have normal: "- 1022 \<le> ilog2 y" and m: "max (ilog2 x) (- 1022) + 1 \<le> ilog2 y"
      by auto
    have "nearest x \<le> 2 powi (max (ilog2 x) (- 1022) + 1)"
      using assms(1) by (rule nearest_upper)
    also have "\<dots> \<le> 2 powi ilog2 y" using m by (rule two_powi_mono)
    also have "\<dots> \<le> nearest y" using y normal by (rule nearest_lower)
    finally show ?thesis .
  qed
qed

lemma nearest_mono:
  assumes "x \<le> y"
  shows "nearest x \<le> nearest y"
proof -
  consider "0 < x" | "x \<le> 0" "0 \<le> y" | "y < 0" by linarith
  then show ?thesis
  proof cases
    case 1
    then show ?thesis using assms by (rule nearest_mono_pos)
  next
    case 2
    have "0 \<le> nearest (- x)" using 2(1) by (intro nearest_nonneg) simp
    then have "nearest x \<le> 0" by (simp add: nearest_minus)
    also have "0 \<le> nearest y" using 2(2) by (rule nearest_nonneg)
    finally show ?thesis .
  next
    case 3
    then have "0 < - y" "- y \<le> - x" using assms by simp_all
    then have "nearest (- y) \<le> nearest (- x)" by (rule nearest_mono_pos)
    then show ?thesis by (simp add: nearest_minus)
  qed
qed

subsection \<open>Representable values, overflow and the integer square root\<close>

lemma nearest_representable:
  assumes "x = of_int m * 2 powi k" and "\<bar>m\<bar> < 2 ^ 53" and "- 1074 \<le> k"
  shows "nearest x = x"
proof (cases "x = 0")
  case True
  then show ?thesis by simp
next
  case False
  define E where "E = ulp_exponent x"
  have "\<bar>x\<bar> = of_int \<bar>m\<bar> * 2 powi k" by (simp add: assms(1) abs_mult)
  also have "\<dots> < of_int (2 ^ 53) * 2 powi k"
    using assms(2) by (intro mult_strict_right_mono) (simp_all only: of_int_less_iff two_powi_pos)
  also have "\<dots> = 2 powi (k + 53)"
    using power_int_add [of "2::rat" k 53] by simp
  finally have ub: "\<bar>x\<bar> < 2 powi (k + 53)" .
  have "ilog2 x < k + 53"
  proof (rule ccontr)
    assume "\<not> ilog2 x < k + 53"
    then have "(2::rat) powi (k + 53) \<le> 2 powi ilog2 x" by (intro two_powi_mono) simp
    with ilog2_bounds(1) [OF False] ub show False by simp
  qed
  with assms(3) have "E \<le> k" by (simp add: E_def ulp_exponent_def)
  then have "(2::rat) powi k = 2 powi (k - E) * 2 powi E"
    using power_int_add [of "2::rat" "k - E" E] by simp
  moreover have "(2::rat) powi (k - E) = of_int (2 ^ nat (k - E))"
    using \<open>E \<le> k\<close> by (simp add: power_int_def)
  ultimately have "x / 2 powi E = of_int (m * 2 ^ nat (k - E))"
    by (simp add: assms(1))
  then have "round_half_even (x / 2 powi E) = m * 2 ^ nat (k - E)"
    by (simp only: rhe_of_int)
  then have "of_int (round_half_even (x / 2 powi E)) * 2 powi E = x / 2 powi E * 2 powi E"
    using \<open>x / 2 powi E = of_int (m * 2 ^ nat (k - E))\<close> by simp
  then show ?thesis using False by (simp add: nearest_def E_def)
qed

lemma fl_Fin: "fl x = Fin y \<Longrightarrow> y = nearest x"
  by (simp add: fl_def Let_def split: if_splits)

lemma fl_not_NaN [simp]: "fl x \<noteq> NaN"
  by (simp add: fl_def Let_def)

lemma fl_mono: "x \<le> y \<Longrightarrow> fl x = Fin a \<Longrightarrow> fl y = Fin b \<Longrightarrow> a \<le> b"
  using nearest_mono [of x y] fl_Fin [of x a] fl_Fin [of y b] by simp

lemma fl_representable:
  assumes "x = of_int m * 2 powi k" and "\<bar>m\<bar> < 2 ^ 53" and "- 1074 \<le> k"
    and "\<bar>x\<bar> < 2 ^ 1024"
  shows "fl x = Fin x"
  using assms(4) by (auto simp: fl_def nearest_representable [OF assms(1-3)])

lemma fl_int:
  assumes "\<bar>m\<bar> < 2 ^ 53"
  shows "fl (of_int m) = Fin (of_int m)"
proof (rule fl_representable [of _ m 0])
  show "(of_int m :: rat) = of_int m * 2 powi 0" by simp
  show "\<bar>m\<bar> < 2 ^ 53" by fact
  show "- 1074 \<le> (0::int)" by simp
  have "\<bar>of_int m :: rat\<bar> = of_int \<bar>m\<bar>" by simp
  also have "\<dots> < of_int (2 ^ 53)" using assms by (simp only: of_int_less_iff)
  also have "\<dots> < 2 ^ 1024" by simp
  finally show "\<bar>of_int m :: rat\<bar> < 2 ^ 1024" .
qed

lemma fl_overflow:
  assumes "2 ^ 1024 \<le> x"
  shows "fl x = PInf"
proof -
  have "nearest (2 ^ 1024) = (2 ^ 1024 :: rat)"
    by (rule nearest_representable [of _ 1 1024]) simp_all
  with nearest_mono [OF assms] show ?thesis by (simp add: fl_def)
qed

lemma fl_overflow_neg:
  assumes "x \<le> - (2 ^ 1024)"
  shows "fl x = NInf"
proof -
  have "nearest (2 ^ 1024) = (2 ^ 1024 :: rat)"
    by (rule nearest_representable [of _ 1 1024]) simp_all
  then have "nearest (- (2 ^ 1024)) = - (2 ^ 1024 :: rat)" by (simp only: nearest_minus)
  with nearest_mono [OF assms] show ?thesis by (simp add: fl_def)
qed

lemma nearest_eq:
  assumes "2 powi e \<le> \<bar>x\<bar>" and "\<bar>x\<bar> < 2 powi (e + 1)"
  shows "nearest x = of_int (round_half_even (x / 2 powi (max e (- 1022) - 52)))
           * 2 powi (max e (- 1022) - 52)"
proof -
  have "0 < \<bar>x\<bar>" using assms(1) two_powi_pos [of e] by linarith
  then have "x \<noteq> 0" by simp
  then show ?thesis
    by (simp add: nearest_def ulp_exponent_def ilog2_unique [OF assms])
qed

lemma isqrt_nonpos: "n \<le> 0 \<Longrightarrow> isqrt n = 0"
  by (subst isqrt.simps) simp

lemma isqrt_correct: "0 \<le> n \<Longrightarrow> 0 \<le> isqrt n \<and> isqrt n * isqrt n \<le> n \<and> n < (isqrt n + 1) * (isqrt n + 1)"
proof (induction n rule: isqrt.induct)
  case (1 n)
  show ?case
  proof (cases "n \<le> 0")
    case True
    with 1(2) show ?thesis by (simp add: isqrt_nonpos)
  next
    case False
    define m where "m = n div 4"
    define r where "r = isqrt m"
    have "0 \<le> m" using False by (simp add: m_def)
    with 1(1) [OF False] have IH: "0 \<le> r" "r * r \<le> m" "m < (r + 1) * (r + 1)"
      by (simp_all add: m_def r_def)
    have n: "4 * m \<le> n" "n \<le> 4 * m + 3" by (simp_all add: m_def)
    have lo: "(2 * r) * (2 * r) \<le> n"
    proof -
      have "(2 * r) * (2 * r) = 4 * (r * r)" by simp
      also have "\<dots> \<le> 4 * m" using IH(2) by simp
      finally show ?thesis using n(1) by simp
    qed
    have hi: "n < (2 * r + 2) * (2 * r + 2)"
    proof -
      from IH(3) have "m + 1 \<le> (r + 1) * (r + 1)" by simp
      then have "4 * m + 4 \<le> 4 * ((r + 1) * (r + 1))" by simp
      also have "\<dots> = (2 * r + 2) * (2 * r + 2)" by (simp add: algebra_simps)
      finally show ?thesis using n(2) by simp
    qed
    have eq: "isqrt n = (if (2 * r + 1) * (2 * r + 1) \<le> n then 2 * r + 1 else 2 * r)"
      using False by (subst isqrt.simps) (simp add: Let_def r_def m_def)
    show ?thesis
    proof (cases "(2 * r + 1) * (2 * r + 1) \<le> n")
      case True
      with eq have "isqrt n = 2 * r + 1" by simp
      with True hi IH(1) show ?thesis by (simp add: algebra_simps)
    next
      case False
      with eq have "isqrt n = 2 * r" by simp
      with False lo IH(1) show ?thesis by (simp add: algebra_simps)
    qed
  qed
qed

lemma isqrt_unique:
  assumes "0 \<le> r" and "r * r \<le> n" and "n < (r + 1) * (r + 1)"
  shows "isqrt n = r"
proof -
  have "0 \<le> n" using assms(1,2) by (meson mult_nonneg_nonneg order_trans)
  note c = isqrt_correct [OF this]
  have "\<not> isqrt n < r"
  proof
    assume "isqrt n < r"
    then have "isqrt n + 1 \<le> r" by simp
    then have "(isqrt n + 1) * (isqrt n + 1) \<le> r * r"
      using c by (intro mult_mono) simp_all
    with c assms(2) show False by simp
  qed
  moreover have "\<not> r < isqrt n"
  proof
    assume "r < isqrt n"
    then have "r + 1 \<le> isqrt n" by simp
    then have "(r + 1) * (r + 1) \<le> isqrt n * isqrt n"
      using assms(1) by (intro mult_mono) simp_all
    with c assms(3) show False by simp
  qed
  ultimately show ?thesis by simp
qed

lemma round_half_even_sqrt_nonneg: "0 \<le> round_half_even_sqrt t"
proof -
  have "0 \<le> isqrt \<lfloor>t\<rfloor>"
    by (cases "0 \<le> \<lfloor>t\<rfloor>") (simp_all add: isqrt_correct isqrt_nonpos)
  then show ?thesis by (simp add: round_half_even_sqrt_def Let_def)
qed

lemma sqrt_nearest_nonneg: "0 \<le> sqrt_nearest x"
  by (simp add: sqrt_nearest_def Let_def round_half_even_sqrt_nonneg)

lemma sqrt_nearest_eq:
  assumes "2 powi e \<le> x" and "x < 2 powi (e + 1)"
  shows "sqrt_nearest x =
           of_int (round_half_even_sqrt
                     (x / (2 powi (max (e div 2) (- 1022) - 52) * 2 powi (max (e div 2) (- 1022) - 52))))
             * 2 powi (max (e div 2) (- 1022) - 52)"
proof -
  have "0 < x" using assms(1) two_powi_pos [of e] by linarith
  then have "ilog2 x = e" using assms by (intro ilog2_unique) simp_all
  with \<open>0 < x\<close> show ?thesis by (simp add: sqrt_nearest_def Let_def)
qed

subsection \<open>Values at concrete inputs\<close>

lemma fl_0 [simp]: "fl 0 = Fin 0"
  by (simp add: fl_def)

lemma fl_numeral:
  "(numeral w :: int) < 2 ^ 53 \<Longrightarrow> fl (numeral w) = Fin (numeral w)"
  using fl_int [of "numeral w"] by simp

lemma fl_neg_numeral:
  "(numeral w :: int) < 2 ^ 53 \<Longrightarrow> fl (- numeral w) = Fin (- numeral w)"
  using fl_int [of "- numeral w"] by simp

lemma fl_1 [simp]: "fl 1 = Fin 1"
  using fl_int [of 1] by simp

lemma fl_minus_1 [simp]: "fl (- 1) = Fin (- 1)"
  using fl_int [of "- 1"] by simp

lemma isqrt_square: "0 \<le> r \<Longrightarrow> isqrt (r * r) = r"
  by (rule isqrt_unique) (simp_all add: algebra_simps)

lemma sqrt_nearest_1: "sqrt_nearest 1 = 1"
proof -
  have "isqrt (2 ^ 52 * 2 ^ 52) = 2 ^ 52" by (rule isqrt_square) simp
  then have i: "isqrt 20282409603651670423947251286016 = 4503599627370496" by simp
  show ?thesis
    using sqrt_nearest_eq [of 0 1] by (simp add: round_half_even_sqrt_def i)
qed

lemma sqrt_nearest_4: "sqrt_nearest 4 = 2"
proof -
  have "isqrt (2 ^ 52 * 2 ^ 52) = 2 ^ 52" by (rule isqrt_square) simp
  then have i: "isqrt 20282409603651670423947251286016 = 4503599627370496" by simp
  show ?thesis
    using sqrt_nearest_eq [of 2 4] by (simp add: round_half_even_sqrt_def i)
qed

lemmas solve_eval = solve_quadratic_func_def isinstance_number_def solve_numbers_def
  discriminant_def linear_root_def double_root_def bindE_def math_sqrt_def to_float_def
  root_plus_def root_minus_def f_sub_def fl_numeral fl_neg_numeral

lemma solve_at_1_m3_2: "solve_quadratic_func pow2 (PyInt 1) (PyInt (- 3)) (PyInt 2)
    = Inr (PyTuple [PyFloat (Fin 2), PyFloat (Fin 1)])"
  by (simp add: solve_eval sqrt_nearest_1)

lemma solve_at_0_2_4: "solve_quadratic_func pow2 (PyInt 0) (PyInt 2) (PyInt 4) = Inr (PyTuple [PyFloat (Fin (- 2))])"
  by (simp add: solve_eval)

lemma fl_absorbs_plus_2: "fl (- 200000000000000000000 + 2) = Fin (- 200000000000000000000)"
proof -
  have f: "\<lfloor>- (99999999999999999999 / 16384 :: rat)\<rfloor> = - 6103515625000000"
    by (rule floor_unique) simp_all
  have "nearest (- 200000000000000000000 + 2) = - 200000000000000000000"
    using nearest_eq [of 67 "- 200000000000000000000 + 2"]
    by (simp add: round_half_even_def Let_def f)
  then show ?thesis by (simp add: fl_def)
qed

lemma fl_absorbs_minus_2: "fl (- 200000000000000000000 - 2) = Fin (- 200000000000000000000)"
proof -
  have f: "\<lfloor>- (100000000000000000001 / 16384 :: rat)\<rfloor> = - 6103515625000001"
    by (rule floor_unique) simp_all
  have "nearest (- 200000000000000000000 - 2) = - 200000000000000000000"
    using nearest_eq [of 67 "- 200000000000000000000 - 2"]
    by (simp add: round_half_even_def Let_def f)
  then show ?thesis by (simp add: fl_def)
qed

lemma fl_2e20: "fl (- 200000000000000000000) = Fin (- 200000000000000000000)"
  by (rule fl_representable [of _ "- 95367431640625" 21]) simp_all

lemma fl_1e20: "fl (- 100000000000000000000) = Fin (- 100000000000000000000)"
  by (rule fl_representable [of _ "- 95367431640625" 20]) simp_all

lemma solve_at_absorbed: "solve_quadratic_func pow2 (PyInt 1) (PyInt 200000000000000000000) (PyInt (10 ^ 40 - 1))
   = Inr (PyTuple [PyFloat (Fin (- 100000000000000000000)), PyFloat (Fin (- 100000000000000000000))])"
  using fl_absorbs_plus_2 fl_absorbs_minus_2
  by (simp add: solve_eval sqrt_nearest_4 fl_2e20 fl_1e20)


lemma solve_at_sqrt_overflow: "solve_quadratic_func pow2 (PyInt 1) (PyInt (2 ^ 600)) (PyInt 0)
   = Inl (Exn OverflowError ''int too large to convert to float'')"
  using fl_overflow [of "2 ^ 1200"]
  by (simp add: solve_eval)

lemma solve_at_1_0_1: "solve_quadratic_func pow2 (PyInt 1) (PyInt 0) (PyInt 1) = Inr (PyTuple [])"
  by (simp add: solve_eval)

lemma solve_at_0_0_5: "solve_quadratic_func pow2 (PyInt 0) (PyInt 0) (PyInt 5) = Inr (PyTuple [])"
  by (simp add: solve_eval)

lemma solve_at_0_0_0:
  "solve_quadratic_func pow2 (PyInt 0) (PyInt 0) (PyInt 0) = Inl (Exn ValueError msg_infinitely_many)"
  by (simp add: solve_eval)

lemma solve_at_x_1_1:
  "solve_quadratic_func pow2 (PyStr ''x'') (PyInt 1) (PyInt 1) = Inl (Exn TypeError msg_coefficients)"
  by (simp add: solve_eval)

lemma solve_at_m1_3_m2:
  "solve_quadratic_func pow2 (PyInt (- 1)) (PyInt 3) (PyInt (- 2))
     = Inr (PyTuple [PyFloat (Fin 1), PyFloat (Fin 2)])"
  by (simp add: solve_eval sqrt_nearest_1)

lemma roots_at_1_m3_2:
  "discriminant pow2 (IntNum 1) (IntNum (- 3)) (IntNum 2) = Inr (IntNum 1)"
  "math_sqrt (IntNum 1) = Inr (FloatNum (Fin 1))"
  "root_plus (IntNum 1) (IntNum (- 3)) (FloatNum (Fin 1)) = Inr (FloatNum (Fin 2))"
  "root_minus (IntNum 1) (IntNum (- 3)) (FloatNum (Fin 1)) = Inr (FloatNum (Fin 1))"
  by (simp_all add: solve_eval sqrt_nearest_1)

subsection \<open>The float range\<close>

text \<open>
  An exact result rounds to a finite float exactly when its magnitude is below
  \<open>2\<^sup>1\<^sup>0\<^sup>2\<^sup>4 - 2\<^sup>9\<^sup>7\<^sup>0\<close>: below it the rounding stays at or under the largest float
  \<open>2\<^sup>1\<^sup>0\<^sup>2\<^sup>4 - 2\<^sup>9\<^sup>7\<^sup>1\<close>, and the threshold itself is a tie that goes to \<open>2\<^sup>1\<^sup>0\<^sup>2\<^sup>4\<close>.
\<close>

lemma rhe_below_half:
  assumes "q < of_int n - 1 / 2"
  shows "round_half_even q < n"
proof -
  have "of_int \<lfloor>q\<rfloor> \<le> q" "q < of_int \<lfloor>q\<rfloor> + 1" by linarith+
  with assms show ?thesis
    by (auto simp: round_half_even_def Let_def) linarith+
qed

lemma max_float: "nearest (2 ^ 1024 - 2 ^ 971) = (2 ^ 1024 - 2 ^ 971 :: rat)"
  by (rule nearest_representable [of _ "2 ^ 53 - 1" 971]) simp_all

lemma nearest_threshold: "nearest (2 ^ 1024 - 2 ^ 970) = (2 ^ 1024 :: rat)"
proof -
  have f: "\<lfloor>18014398509481983 / 2 :: rat\<rfloor> = 9007199254740991"
    by (rule floor_unique) simp_all
  show ?thesis
    using nearest_eq [of 1023 "2 ^ 1024 - 2 ^ 970"]
    by (simp add: round_half_even_def Let_def f)
qed

lemma nearest_below_threshold:
  assumes "0 \<le> x" and "x < 2 ^ 1024 - 2 ^ 970"
  shows "nearest x < 2 ^ 1024"
proof (cases "x \<le> 2 ^ 1024 - 2 ^ 971")
  case True
  from nearest_mono [OF this] have "nearest x \<le> 2 ^ 1024 - 2 ^ 971" by (simp only: max_float)
  then show ?thesis by simp
next
  case False
  then have lo: "2 powi 1023 \<le> \<bar>x\<bar>" by simp
  from assms have hi: "\<bar>x\<bar> < 2 powi (1023 + 1)" by simp
  have q: "x / 2 powi 971 < of_int (2 ^ 53) - 1 / 2"
    using assms(2) by (simp add: pos_divide_less_eq)
  from rhe_below_half [OF q] have "round_half_even (x / 2 powi 971) \<le> 2 ^ 53 - 1" by simp
  then have "(of_int (round_half_even (x / 2 powi 971)) :: rat) \<le> of_int (2 ^ 53 - 1)"
    by (simp only: of_int_le_iff)
  then have "of_int (round_half_even (x / 2 powi 971)) * 2 powi 971
      \<le> of_int (2 ^ 53 - 1) * (2 powi 971 :: rat)"
    by (rule mult_right_mono) simp
  moreover have "nearest x = of_int (round_half_even (x / 2 powi 971)) * 2 powi 971"
    using nearest_eq [OF lo hi] by simp
  ultimately have "nearest x \<le> of_int (2 ^ 53 - 1) * (2 powi 971 :: rat)" by simp
  then show ?thesis by simp
qed

lemma fl_in_range:
  assumes "in_float_range x"
  shows "fl x = Fin (nearest x)"
proof (cases "0 \<le> x")
  case True
  with assms have "x < 2 ^ 1024 - 2 ^ 970" by (simp add: in_float_range_def)
  from nearest_below_threshold [OF True this] nearest_nonneg [OF True]
  show ?thesis by (simp add: fl_def)
next
  case False
  then have n: "0 \<le> - x" by simp
  from False assms have "- x < 2 ^ 1024 - 2 ^ 970" by (simp add: in_float_range_def)
  from nearest_below_threshold [OF n this] nearest_nonneg [OF n]
  have "- (2 ^ 1024) < nearest x" "nearest x \<le> 0" by (simp_all add: nearest_minus)
  then show ?thesis by (simp add: fl_def)
qed

lemma fl_out_of_range:
  assumes "\<not> in_float_range x"
  shows "fl x = (if 0 < x then PInf else NInf)"
proof (cases "0 < x")
  case True
  with assms have "2 ^ 1024 - 2 ^ 970 \<le> x" by (simp add: in_float_range_def)
  from nearest_mono [OF this] have "2 ^ 1024 \<le> nearest x" by (simp only: nearest_threshold)
  with True show ?thesis by (simp add: fl_def)
next
  case False
  with assms have "2 ^ 1024 - 2 ^ 970 \<le> - x" by (simp add: in_float_range_def)
  from nearest_mono [OF this] have "2 ^ 1024 \<le> nearest (- x)" by (simp only: nearest_threshold)
  then have "nearest x \<le> - (2 ^ 1024)" by (simp add: nearest_minus)
  with False show ?thesis by (simp add: fl_def)
qed

lemma fl_finite_iff: "(\<exists>y. fl x = Fin y) \<longleftrightarrow> in_float_range x"
proof (cases "in_float_range x")
  case True
  then show ?thesis by (simp add: fl_in_range)
next
  case False
  then show ?thesis by (simp add: fl_out_of_range)
qed

lemma fl_minus: "fl (- x) = f_neg (fl x)"
proof (cases "in_float_range x")
  case True
  then have "in_float_range (- x)" by (simp add: in_float_range_def)
  with True show ?thesis by (simp add: fl_in_range nearest_minus)
next
  case False
  then have "\<not> in_float_range (- x)" by (simp add: in_float_range_def)
  moreover from False have "x \<noteq> 0" by (auto simp: in_float_range_def)
  ultimately show ?thesis using False by (auto simp: fl_out_of_range)
qed

subsection \<open>More values at concrete inputs\<close>

lemma nearest_int:
  assumes "\<bar>m\<bar> < 2 ^ 53"
  shows "nearest (of_int m) = of_int m"
  using assms by (intro nearest_representable [of _ m 0]) simp_all

lemma nearest_numeral:
  "(numeral w :: int) < 2 ^ 53 \<Longrightarrow> nearest (numeral w) = numeral w"
  using nearest_int [of "numeral w"] by simp

lemma nearest_neg_numeral:
  "(numeral w :: int) < 2 ^ 53 \<Longrightarrow> nearest (- numeral w) = - numeral w"
  using nearest_int [of "- numeral w"] by simp

lemma nearest_1 [simp]: "nearest 1 = 1"
  using nearest_int [of 1] by simp

lemma nearest_minus_1 [simp]: "nearest (- 1) = - 1"
  using nearest_int [of "- 1"] by simp

lemmas closed_eval = in_float_range_def nearest_numeral nearest_neg_numeral fl_numeral
  fl_neg_numeral f_sub_def sqrt_nearest_1

lemma fl_2p1000: "fl (2 ^ 1000) = Fin (2 ^ 1000)"
  by (rule fl_representable [of _ 1 1000]) simp_all

lemma fl_2p501: "fl (2 ^ 501) = Fin (2 ^ 501)"
  by (rule fl_representable [of _ 1 501]) simp_all

lemma fl_2m1000: "fl (1 / 2 ^ 1000) = Fin (1 / 2 ^ 1000)"
  by (rule fl_representable [of _ 1 "- 1000"]) (simp_all add: power_int_minus divide_simps)

lemma fl_2m999: "fl (1 / 2 ^ 999) = Fin (1 / 2 ^ 999)"
  by (rule fl_representable [of _ 1 "- 999"]) (simp_all add: power_int_minus divide_simps)

lemma fl_2m998: "fl (1 / 2 ^ 998) = Fin (1 / 2 ^ 998)"
  by (rule fl_representable [of _ 1 "- 998"]) (simp_all add: power_int_minus divide_simps)

lemma sqrt_nearest_2p1000: "sqrt_nearest (2 ^ 1000) = 2 ^ 500"
proof -
  have "isqrt (2 ^ 52 * 2 ^ 52) = 2 ^ 52" by (rule isqrt_square) simp
  then have i: "isqrt 20282409603651670423947251286016 = 4503599627370496" by simp
  show ?thesis
    using sqrt_nearest_eq [of 1000 "2 ^ 1000"] by (simp add: round_half_even_sqrt_def i)
qed

section \<open>Properties of the quadratic solver\<close>

lemma solve_of_numbers:
  assumes "as_number a = Some na" and "as_number b = Some nb" and "as_number c = Some nc"
  shows "solve_quadratic_func pow2 a b c = solve_numbers pow2 na nb nc"
  using assms by (simp add: solve_quadratic_func_def isinstance_number_def)



lemma num_gt0_not_lt0: "num_gt0 d \<Longrightarrow> \<not> num_lt0 d"
  by (cases d rule: num_gt0.cases) simp_all

lemma num_gt0_not_eq0: "num_gt0 d \<Longrightarrow> \<not> num_eq0 d"
  by (cases d rule: num_gt0.cases) simp_all

lemma to_float_cases:
  "(\<exists>x. to_float n = Inr (Fin x) \<and> x = nearest (of_int n)) \<or>
   to_float n = Inl (Exn OverflowError ''int too large to convert to float'')"
  by (cases "fl (of_int n)") (auto simp: to_float_def dest: fl_Fin)

subsection \<open>The conversions, the division and the roots in closed form\<close>

lemma to_float_eq:
  "to_float n =
     (if in_float_range (of_int n) then Inr (Fin (nearest (of_int n)))
      else Inl (Exn OverflowError ''int too large to convert to float''))"
  by (simp add: to_float_def fl_in_range fl_out_of_range)

lemma as_float_eq:
  "as_float x =
     (if fits x then Inr (float_of x)
      else Inl (Exn OverflowError ''int too large to convert to float''))"
  by (cases x) (simp_all add: to_float_eq)

lemma fits_neg [simp]: "fits (num_neg x) = fits x"
  by (cases x) (simp_all add: in_float_range_def)

lemma float_of_neg [simp]: "float_of (num_neg x) = f_neg (float_of x)"
  by (cases x) (simp_all add: nearest_minus)

lemma is_float_neg [simp]: "is_float (num_neg x) = is_float x"
  by (cases x) simp_all

lemma num_eq0_neg [simp]: "num_eq0 (num_neg x) = num_eq0 x"
  by (cases x rule: num_eq0.cases) simp_all

lemma to_float_2: "to_float 2 = Inr (Fin 2)"
  by (simp add: to_float_def fl_numeral)

lemma num_mul_2: "num_mul (IntNum 2) a = Inr (twice a)"
  by (cases a) (simp_all add: bindE_def to_float_2)

lemma nearest_int_nonzero:
  assumes "n \<noteq> 0"
  shows "nearest (of_int n :: rat) \<noteq> 0"
proof (cases "0 < n")
  case True
  then have "(1::rat) \<le> of_int n" by simp
  from nearest_mono [OF this] have "1 \<le> nearest (of_int n :: rat)"
    using nearest_representable [of 1 1 0] by simp
  then show ?thesis by simp
next
  case False
  with assms have "(of_int n :: rat) \<le> - 1" by simp
  from nearest_mono [OF this] have "nearest (of_int n :: rat) \<le> - 1"
    using nearest_representable [of "- 1" "- 1" 0] by simp
  then show ?thesis by simp
qed

lemma float_of_nonzero:
  assumes "\<not> num_eq0 y"
  shows "float_of y \<noteq> Fin 0"
proof (cases y)
  case (IntNum n)
  with assms show ?thesis by (simp add: nearest_int_nonzero)
next
  case (FloatNum v)
  with assms show ?thesis by (cases v) simp_all
qed



text \<open>The sum and the difference with a float: the other operand is converted.\<close>

lemma num_add_float:
  "num_add x (FloatNum sv) = bindE (as_float x) (\<lambda>u. Inr (FloatNum (f_add u sv)))"
  by (cases x) (simp_all add: bindE_def)

lemma num_sub_float:
  "num_sub x (FloatNum sv) = bindE (as_float x) (\<lambda>u. Inr (FloatNum (f_sub u sv)))"
  by (cases x) (simp_all add: bindE_def)

lemma num_truediv_float:
  "num_truediv (FloatNum w) y = bindE (as_float y) (\<lambda>v.
     if v = Fin 0 then Inl (Exn ZeroDivisionError ''float division by zero'')
     else Inr (FloatNum (f_div w v)))"
  by (cases y) (simp_all add: bindE_def)

lemma root_plus_float:
  assumes "root_plus a b (FloatNum sv) = Inr x"
  shows "\<exists>u ta tv. as_float (num_neg b) = Inr u \<and> num_mul (IntNum 2) a = Inr ta \<and>
           as_float ta = Inr tv \<and> x = FloatNum (f_div (f_add u sv) tv)"
  using assms
  by (auto simp: root_plus_def num_add_float num_truediv_float bindE_def
      split: sum.splits if_splits)

lemma root_minus_float:
  assumes "root_minus a b (FloatNum sv) = Inr x"
  shows "\<exists>u ta tv. as_float (num_neg b) = Inr u \<and> num_mul (IntNum 2) a = Inr ta \<and>
           as_float ta = Inr tv \<and> x = FloatNum (f_div (f_sub u sv) tv)"
  using assms
  by (auto simp: root_minus_def num_sub_float num_truediv_float bindE_def
      split: sum.splits if_splits)

lemma fl_nonneg: "0 \<le> x \<Longrightarrow> fl x = PInf \<or> (\<exists>t. fl x = Fin t \<and> 0 \<le> t)"
  using nearest_nonneg [of x] by (auto simp: fl_def Let_def)

lemma fl_nonpos: "x \<le> 0 \<Longrightarrow> fl x = NInf \<or> (\<exists>t. fl x = Fin t \<and> t \<le> 0)"
  using nearest_nonneg [of "- x"] by (auto simp: fl_def Let_def nearest_minus)

lemma twice_pos:
  assumes "num_gt0 a" and "num_mul (IntNum 2) a = Inr ta" and "as_float ta = Inr tv"
  shows "tv = PInf \<or> (\<exists>t. tv = Fin t \<and> 0 \<le> t)"
proof (cases a)
  case (IntNum n)
  with assms have "to_float (2 * n) = Inr tv" "0 < n" by auto
  with to_float_cases [of "2 * n"] nearest_nonneg [of "of_int (2 * n)"]
  show ?thesis by auto
next
  case (FloatNum v)
  with assms(2,3) have tv: "tv = f_mul (Fin 2) v"
    by (auto simp: bindE_def to_float_2)
  show ?thesis
  proof (cases v)
    case (Fin x)
    with assms(1) FloatNum have "0 \<le> 2 * x" by simp
    from fl_nonneg [OF this] tv Fin show ?thesis by simp
  next
    case PInf
    with tv show ?thesis by (simp add: inf_of_sign_def)
  next
    case NInf
    with assms(1) FloatNum show ?thesis by simp
  next
    case NaN
    with assms(1) FloatNum show ?thesis by simp
  qed
qed

lemma twice_neg:
  assumes "num_lt0 a" and "num_mul (IntNum 2) a = Inr ta" and "as_float ta = Inr tv"
  shows "tv = NInf \<or> (\<exists>t. tv = Fin t \<and> t \<le> 0)"
proof (cases a)
  case (IntNum n)
  with assms have "to_float (2 * n) = Inr tv" "n < 0" by auto
  with to_float_cases [of "2 * n"] nearest_nonneg [of "- of_int (2 * n)"]
  show ?thesis by (auto simp: nearest_minus)
next
  case (FloatNum v)
  with assms(2,3) have tv: "tv = f_mul (Fin 2) v"
    by (auto simp: bindE_def to_float_2)
  show ?thesis
  proof (cases v)
    case (Fin x)
    with assms(1) FloatNum have "2 * x \<le> 0" by simp
    from fl_nonpos [OF this] tv Fin show ?thesis by simp
  next
    case PInf
    with assms(1) FloatNum show ?thesis by simp
  next
    case NInf
    with tv show ?thesis by (simp add: inf_of_sign_def)
  next
    case NaN
    with assms(1) FloatNum show ?thesis by simp
  qed
qed

lemma solve_numbers_two_roots:
  assumes "solve_numbers pow2 a b c = Inr (PyTuple [r1, r2])"
  shows "\<exists>d s x1 x2. \<not> num_eq0 a \<and> discriminant pow2 a b c = Inr d \<and> \<not> num_lt0 d \<and> \<not> num_eq0 d \<and>
           math_sqrt d = Inr s \<and> root_plus a b s = Inr x1 \<and> root_minus a b s = Inr x2 \<and>
           r1 = of_number x1 \<and> r2 = of_number x2"
  using assms
  by (auto simp: solve_numbers_def bindE_def split: if_splits sum.splits)

lemma twice_nonzero:
  assumes "binary64_number a" and "\<not> num_eq0 a"
  shows "\<exists>ta. num_mul (IntNum 2) a = Inr ta \<and> \<not> num_eq0 ta"
proof (cases a)
  case (IntNum n)
  with assms(2) show ?thesis by simp
next
  case (FloatNum v)
  have eq: "num_mul (IntNum 2) a = Inr (FloatNum (f_mul (Fin 2) v))"
    using FloatNum by (simp add: bindE_def to_float_2)
  show ?thesis
  proof (cases v)
    case (Fin x)
    with assms FloatNum have x: "x \<noteq> 0" "fl x = Fin x" by simp_all
    then have nx: "nearest x = x" by (auto dest: fl_Fin)
    have "nearest (2 * x) \<noteq> 0"
    proof (cases "0 < x")
      case True
      then have "x \<le> 2 * x" by simp
      from nearest_mono [OF this] nx True show ?thesis by simp
    next
      case False
      with x(1) have "2 * x \<le> x" "x < 0" by simp_all
      from nearest_mono [OF this(1)] nx this(2) show ?thesis by simp
    qed
    then have "fl (2 * x) \<noteq> Fin 0" by (auto dest: fl_Fin)
    then have "\<not> num_eq0 (FloatNum (fl (2 * x)))"
      by (cases "fl (2 * x)") simp_all
    with eq Fin show ?thesis by simp
  next
    case PInf
    with eq show ?thesis by (simp add: inf_of_sign_def)
  next
    case NInf
    with eq show ?thesis by (simp add: inf_of_sign_def)
  next
    case NaN
    with eq show ?thesis by simp
  qed
qed

lemma twice_not_zero:
  assumes "binary64_number a" and "\<not> num_eq0 a"
  shows "\<not> num_eq0 (twice a)"
  using twice_nonzero [OF assms] by (simp add: num_mul_2)

lemma math_sqrt_eq:
  assumes "\<not> num_lt0 d"
  shows "math_sqrt d =
           (if fits d then Inr (FloatNum (sqrt_float (float_of d)))
            else Inl (Exn OverflowError ''int too large to convert to float''))"
proof (cases d)
  case (IntNum n)
  with assms have "(0::rat) \<le> of_int n" by simp
  then have "0 \<le> nearest (of_int n :: rat)" by (rule nearest_nonneg)
  with IntNum show ?thesis by (simp add: math_sqrt_def to_float_eq bindE_def)
next
  case (FloatNum v)
  with assms show ?thesis by (cases v) (simp_all add: math_sqrt_def bindE_def)
qed

lemma root_plus_eq:
  assumes "binary64_number a" and "\<not> num_eq0 a"
  shows "root_plus a b (FloatNum sv) =
           (if fits b \<and> fits (twice a)
            then Inr (FloatNum (f_div (f_add (f_neg (float_of b)) sv) (float_of (twice a))))
            else Inl (Exn OverflowError ''int too large to convert to float''))"
  using float_of_nonzero [OF twice_not_zero [OF assms]]
  by (simp add: root_plus_def num_add_float num_mul_2 as_float_eq bindE_def)

lemma root_minus_eq:
  assumes "binary64_number a" and "\<not> num_eq0 a"
  shows "root_minus a b (FloatNum sv) =
           (if fits b \<and> fits (twice a)
            then Inr (FloatNum (f_div (f_sub (f_neg (float_of b)) sv) (float_of (twice a))))
            else Inl (Exn OverflowError ''int too large to convert to float''))"
  using float_of_nonzero [OF twice_not_zero [OF assms]]
  by (simp add: root_minus_def num_sub_float num_mul_2 as_float_eq bindE_def)






lemma discriminant_ints:
  "discriminant pow2 (IntNum k) (IntNum m) (IntNum n) = Inr (IntNum (m * m - 4 * k * n))"
  by (simp add: discriminant_def bindE_def)



lemma solve_numbers_positive:
  assumes "binary64_number a" and "\<not> num_eq0 a" and "discriminant pow2 a b c = Inr d"
    and "\<not> num_lt0 d" and "\<not> num_eq0 d"
  shows "solve_numbers pow2 a b c =
           (if fits d \<and> fits b \<and> fits (twice a)
            then Inr (PyTuple
              [PyFloat (f_div (f_add (f_neg (float_of b)) (sqrt_float (float_of d)))
                          (float_of (twice a))),
               PyFloat (f_div (f_sub (f_neg (float_of b)) (sqrt_float (float_of d)))
                          (float_of (twice a)))])
            else Inl (Exn OverflowError ''int too large to convert to float''))"
  using assms(2-5)
  by (simp add: solve_numbers_def bindE_def math_sqrt_eq [OF assms(4)]
      root_plus_eq [OF assms(1,2)] root_minus_eq [OF assms(1,2)])

subsection \<open>The case analysis\<close>





text \<open>
  C4 (as the code has it). The test vectors of the solver: \<^verbatim>\<open>solve(1,-3,2)\<close> is
  \<^verbatim>\<open>(2.0, 1.0)\<close>, the root with the plus sign first; \<^verbatim>\<open>solve(1,0,1)\<close> and \<^verbatim>\<open>solve(0,0,5)\<close>
  are the empty tuple; \<^verbatim>\<open>solve(0,2,4)\<close> is \<^verbatim>\<open>(-2.0,)\<close>; \<^verbatim>\<open>solve(0,0,0)\<close> fails with the
  ValueError of infinitely many solutions, and \<^verbatim>\<open>solve("x",1,1)\<close> with the TypeError of
  coefficients that are not numbers.
\<close>

theorem solve_quadratic_test_vectors:
  "solve_quadratic_func pow2 (PyInt 1) (PyInt (- 3)) (PyInt 2)
     = Inr (PyTuple [PyFloat (Fin 2), PyFloat (Fin 1)]) \<and>
   solve_quadratic_func pow2 (PyInt 1) (PyInt 0) (PyInt 1) = Inr (PyTuple []) \<and>
   solve_quadratic_func pow2 (PyInt 0) (PyInt 0) (PyInt 5) = Inr (PyTuple []) \<and>
   solve_quadratic_func pow2 (PyInt 0) (PyInt 2) (PyInt 4) = Inr (PyTuple [PyFloat (Fin (- 2))]) \<and>
   solve_quadratic_func pow2 (PyInt 0) (PyInt 0) (PyInt 0) = Inl (Exn ValueError msg_infinitely_many) \<and>
   solve_quadratic_func pow2 (PyStr ''x'') (PyInt 1) (PyInt 1) = Inl (Exn TypeError msg_coefficients)"
  by (simp add: solve_at_1_m3_2 solve_at_1_0_1 solve_at_0_0_5 solve_at_0_2_4 solve_at_0_0_0
        solve_at_x_1_1)

text \<open>
  The specification's vector for \<^verbatim>\<open>solve(1,-3,2)\<close> is \<^verbatim>\<open>(1.0, 2.0)\<close>; the solver returns
  the two roots in the other order.
\<close>

theorem solve_quadratic_test_vectors_counterexample:
  "\<forall>pow2. solve_quadratic_func pow2 (PyInt 1) (PyInt (- 3)) (PyInt 2)
     \<noteq> Inr (PyTuple [PyFloat (Fin 1), PyFloat (Fin 2)])"
  by (simp add: solve_at_1_m3_2)

subsection \<open>The order of the two roots\<close>

lemma f_div_order_pos:
  assumes "fl x = Fin a" and "fl y = Fin b" and "y \<le> x" and "0 \<le> t"
    and "fl (a / t) = Fin x1" and "fl (b / t) = Fin x2"
  shows "x2 \<le> x1"
proof -
  have "b \<le> a" using assms(3,2,1) by (rule fl_mono)
  then have "b / t \<le> a / t" using assms(4) by (rule divide_right_mono)
  then show ?thesis using assms(6,5) by (rule fl_mono)
qed

lemma f_div_order_neg:
  assumes "fl x = Fin a" and "fl y = Fin b" and "y \<le> x" and "t \<le> 0"
    and "fl (a / t) = Fin x1" and "fl (b / t) = Fin x2"
  shows "x1 \<le> x2"
proof -
  have "b \<le> a" using assms(3,2,1) by (rule fl_mono)
  then have "a / t \<le> b / t" using assms(4) by (rule divide_right_mono_neg)
  then show ?thesis using assms(5,6) by (rule fl_mono)
qed

lemma roots_ordered_pos:
  assumes "sv = NaN \<or> sv = PInf \<or> (\<exists>y. sv = Fin y \<and> 0 \<le> y)"
    and "tv = PInf \<or> (\<exists>t. tv = Fin t \<and> 0 \<le> t)"
    and "f_div (f_add u sv) tv = Fin x1"
    and "f_div (f_sub u sv) tv = Fin x2"
  shows "x2 \<le> x1"
proof (cases u)
  case (Fin uu)
  show ?thesis
  proof (cases sv)
    case (Fin y)
    with assms(1) have y: "0 \<le> y" by simp
    obtain A where A: "fl (uu + y) = A" by simp
    obtain B where B: "fl (uu + - y) = B" by simp
    have le: "uu + - y \<le> uu + y" using y by simp
    from assms(2) show ?thesis
    proof
      assume "tv = PInf"
      with assms(3,4) \<open>u = Fin uu\<close> Fin A B show ?thesis
        by (cases A; cases B) (simp_all add: f_sub_def)
    next
      assume "\<exists>t. tv = Fin t \<and> 0 \<le> t"
      then obtain t where t: "tv = Fin t" "0 \<le> t" by auto
      from assms(3,4) \<open>u = Fin uu\<close> Fin A B t
      obtain a b where ab: "A = Fin a" "B = Fin b" "fl (a / t) = Fin x1" "fl (b / t) = Fin x2"
        by (cases A; cases B) (simp_all add: f_sub_def inf_of_sign_def split: if_splits)
      have "fl (uu + y) = Fin a" "fl (uu + - y) = Fin b" using A B ab(1,2) by simp_all
      from f_div_order_pos [OF this le t(2) ab(3,4)] show ?thesis .
    qed
  next
    case PInf
    with assms(3) \<open>u = Fin uu\<close> assms(2) show ?thesis
      by (auto simp: inf_of_sign_def split: if_splits)
  next
    case NInf
    with assms(1) show ?thesis by simp
  next
    case NaN
    with assms(3) \<open>u = Fin uu\<close> show ?thesis by simp
  qed
next
  case PInf
  with assms show ?thesis
    by (cases sv) (auto simp: inf_of_sign_def f_sub_def split: if_splits)
next
  case NInf
  with assms show ?thesis
    by (cases sv) (auto simp: inf_of_sign_def f_sub_def split: if_splits)
next
  case NaN
  with assms(3) show ?thesis by simp
qed

lemma roots_ordered_neg:
  assumes "sv = NaN \<or> sv = PInf \<or> (\<exists>y. sv = Fin y \<and> 0 \<le> y)"
    and "tv = NInf \<or> (\<exists>t. tv = Fin t \<and> t \<le> 0)"
    and "f_div (f_add u sv) tv = Fin x1"
    and "f_div (f_sub u sv) tv = Fin x2"
  shows "x1 \<le> x2"
proof (cases u)
  case (Fin uu)
  show ?thesis
  proof (cases sv)
    case (Fin y)
    with assms(1) have y: "0 \<le> y" by simp
    obtain A where A: "fl (uu + y) = A" by simp
    obtain B where B: "fl (uu + - y) = B" by simp
    have le: "uu + - y \<le> uu + y" using y by simp
    from assms(2) show ?thesis
    proof
      assume "tv = NInf"
      with assms(3,4) \<open>u = Fin uu\<close> Fin A B show ?thesis
        by (cases A; cases B) (simp_all add: f_sub_def)
    next
      assume "\<exists>t. tv = Fin t \<and> t \<le> 0"
      then obtain t where t: "tv = Fin t" "t \<le> 0" by auto
      from assms(3,4) \<open>u = Fin uu\<close> Fin A B t
      obtain a b where ab: "A = Fin a" "B = Fin b" "fl (a / t) = Fin x1" "fl (b / t) = Fin x2"
        by (cases A; cases B) (simp_all add: f_sub_def inf_of_sign_def split: if_splits)
      have "fl (uu + y) = Fin a" "fl (uu + - y) = Fin b" using A B ab(1,2) by simp_all
      from f_div_order_neg [OF this le t(2) ab(3,4)] show ?thesis .
    qed
  next
    case PInf
    with assms(3) \<open>u = Fin uu\<close> assms(2) show ?thesis
      by (auto simp: inf_of_sign_def split: if_splits)
  next
    case NInf
    with assms(1) show ?thesis by simp
  next
    case NaN
    with assms(3) \<open>u = Fin uu\<close> show ?thesis by simp
  qed
next
  case PInf
  with assms show ?thesis
    by (cases sv) (auto simp: inf_of_sign_def f_sub_def split: if_splits)
next
  case NInf
  with assms show ?thesis
    by (cases sv) (auto simp: inf_of_sign_def f_sub_def split: if_splits)
next
  case NaN
  with assms(3) show ?thesis by simp
qed

lemma math_sqrt_float:
  assumes "math_sqrt d = Inr s"
  shows "\<exists>sv. s = FloatNum sv \<and> (sv = NaN \<or> sv = PInf \<or> (\<exists>y. sv = Fin y \<and> 0 \<le> y))"
proof -
  from assms obtain v where v: "as_float d = Inr v" "f_sqrt v = Inr s"
    by (auto simp: math_sqrt_def bindE_def split: sum.splits)
  from v(2) show ?thesis
    by (cases v) (auto simp: sqrt_nearest_nonneg split: if_splits)
qed

text \<open>
  C10 (as the code has it). Whenever the solver returns two finite roots, the first is
  not less than the second for \<open>a > 0\<close>, and not greater than the second for \<open>a < 0\<close>: the
  solver does not sort them. The order need not be strict: both roots are rounded, and
  they can round to the same float.
\<close>

theorem two_roots_never_ascend_for_positive_a:
  assumes "as_number a = Some na" and "as_number b = Some nb" and "as_number c = Some nc"
    and "solve_quadratic_func pow2 a b c = Inr (PyTuple [PyFloat (Fin x1), PyFloat (Fin x2)])"
  shows "(num_gt0 na \<longrightarrow> x2 \<le> x1) \<and> (num_lt0 na \<longrightarrow> x1 \<le> x2)"
proof -
  from assms have "solve_numbers pow2 na nb nc = Inr (PyTuple [PyFloat (Fin x1), PyFloat (Fin x2)])"
    by (simp add: solve_of_numbers)
  from solve_numbers_two_roots [OF this]
  obtain d s X1 X2 where s: "math_sqrt d = Inr s"
    and X1: "root_plus na nb s = Inr X1" and X2: "root_minus na nb s = Inr X2"
    and r: "PyFloat (Fin x1) = of_number X1" "PyFloat (Fin x2) = of_number X2"
    by blast
  from math_sqrt_float [OF s] obtain sv where sv: "s = FloatNum sv"
    "sv = NaN \<or> sv = PInf \<or> (\<exists>y. sv = Fin y \<and> 0 \<le> y)"
    by blast
  from root_plus_float [OF X1 [unfolded sv(1)]]
  obtain u ta tv where p: "as_float (num_neg nb) = Inr u" "num_mul (IntNum 2) na = Inr ta"
    "as_float ta = Inr tv" "X1 = FloatNum (f_div (f_add u sv) tv)"
    by blast
  from root_minus_float [OF X2 [unfolded sv(1)]] p(1-3)
  have m: "X2 = FloatNum (f_div (f_sub u sv) tv)" by auto
  from r p(4) m have d1: "f_div (f_add u sv) tv = Fin x1" and d2: "f_div (f_sub u sv) tv = Fin x2"
    by simp_all
  have "x2 \<le> x1" if "num_gt0 na"
    using roots_ordered_pos [OF sv(2) twice_pos [OF that p(2,3)] d1 d2] .
  moreover have "x1 \<le> x2" if "num_lt0 na"
    using roots_ordered_neg [OF sv(2) twice_neg [OF that p(2,3)] d1 d2] .
  ultimately show ?thesis by blast
qed


theorem two_roots_never_ascend_for_positive_a_witness:
  "num_gt0 (IntNum 1) \<and>
   solve_quadratic_func pow2_rounded (PyInt 1) (PyInt (- 3)) (PyInt 2)
     = Inr (PyTuple [PyFloat (Fin 2), PyFloat (Fin 1)]) \<and> (1::rat) \<le> 2 \<and>
   num_lt0 (IntNum (- 1)) \<and>
   solve_quadratic_func pow2_rounded (PyInt (- 1)) (PyInt 3) (PyInt (- 2))
     = Inr (PyTuple [PyFloat (Fin 1), PyFloat (Fin 2)])"
  using two_roots_never_ascend_for_positive_a
    [where a = "PyInt 1" and b = "PyInt (- 3)" and c = "PyInt 2" and na = "IntNum 1"
       and nb = "IntNum (- 3)" and nc = "IntNum 2" and ?x1.0 = 2 and ?x2.0 = 1]
    two_roots_never_ascend_for_positive_a
    [where a = "PyInt (- 1)" and b = "PyInt 3" and c = "PyInt (- 2)" and na = "IntNum (- 1)"
       and nb = "IntNum 3" and nc = "IntNum (- 2)" and ?x1.0 = 1 and ?x2.0 = 2]
  by (simp add: solve_at_1_m3_2 solve_at_m1_3_m2)

text \<open>
  The strict order of the claim fails by absorption: for \<open>a = 1\<close>, \<open>b = 2\<cdot>10\<^sup>2\<^sup>0\<close>,
  \<open>c = 10\<^sup>4\<^sup>0 - 1\<close> the discriminant is 4, its root 2 is lost in the float sum with
  \<open>-b\<close>, and both roots are \<^verbatim>\<open>-1e+20\<close>.
\<close>

theorem two_roots_never_ascend_for_positive_a_counterexample:
  "\<forall>pow2.
     num_gt0 (IntNum 1) \<and>
     discriminant pow2 (IntNum 1) (IntNum 200000000000000000000) (IntNum (10 ^ 40 - 1))
       = Inr (IntNum 4) \<and>
     num_gt0 (IntNum 4) \<and>
     solve_quadratic_func pow2 (PyInt 1) (PyInt 200000000000000000000) (PyInt (10 ^ 40 - 1))
       = Inr (PyTuple [PyFloat (Fin (- 100000000000000000000)),
                       PyFloat (Fin (- 100000000000000000000))]) \<and>
     \<not> (- 100000000000000000000 < (- 100000000000000000000 :: rat))"
proof -
  have "discriminant pow2 (IntNum 1) (IntNum 200000000000000000000) (IntNum (10 ^ 40 - 1))
     = Inr (IntNum 4)" for pow2
    by (simp add: discriminant_def bindE_def)
  with solve_at_absorbed show ?thesis by simp
qed

text \<open>
  C5 (as the code has it). For numeric \<open>a\<close>, \<open>b\<close>, \<open>c\<close> with \<open>a \<noteq> 0\<close> (a float \<open>a\<close> being a
  binary64 value, as every Python float is) and a discriminant \<open>d\<close> that is computed and
  positive: when \<open>d\<close>, \<open>b\<close> and \<^verbatim>\<open>2*a\<close> convert to float (each is a float, or an int within
  the float range), the solver returns exactly two roots, first
  \<^verbatim>\<open>(float(-b) + sqrt(float(d))) / float(2*a)\<close>, then
  \<^verbatim>\<open>(float(-b) - sqrt(float(d))) / float(2*a)\<close>, in float arithmetic: a sum or a quotient
  beyond the float range is an infinity there, and it is returned, not raised. When one of
  \<open>d\<close>, \<open>b\<close>, \<^verbatim>\<open>2*a\<close> is an int beyond the float range, the solver returns nothing and
  raises the OverflowError "int too large to convert to float".
\<close>

theorem two_roots_plus_before_minus:
  assumes "as_number a = Some na" and "as_number b = Some nb" and "as_number c = Some nc"
    and "binary64_number na" and "\<not> num_eq0 na"
    and "discriminant pow2 na nb nc = Inr d" and "num_gt0 d"
  shows "solve_quadratic_func pow2 a b c =
           (if fits d \<and> fits nb \<and> fits (twice na)
            then Inr (PyTuple
                   [PyFloat (f_div (f_add (f_neg (float_of nb)) (sqrt_float (float_of d)))
                               (float_of (twice na))),
                    PyFloat (f_div (f_sub (f_neg (float_of nb)) (sqrt_float (float_of d)))
                               (float_of (twice na)))])
            else Inl (Exn OverflowError ''int too large to convert to float''))"
  using solve_numbers_positive [OF assms(4-6) num_gt0_not_lt0 [OF assms(7)]
      num_gt0_not_eq0 [OF assms(7)]]
  by (simp only: solve_of_numbers [OF assms(1-3)])


theorem two_roots_plus_before_minus_witness:
  "binary64_number (IntNum 1) \<and> \<not> num_eq0 (IntNum 1) \<and>
   discriminant pow2_rounded (IntNum 1) (IntNum (- 3)) (IntNum 2) = Inr (IntNum 1) \<and>
   num_gt0 (IntNum 1) \<and>
   solve_quadratic_func pow2_rounded (PyInt 1) (PyInt (- 3)) (PyInt 2)
     = Inr (PyTuple [PyFloat (Fin 2), PyFloat (Fin 1)]) \<and>
   binary64_number (FloatNum (Fin (1 / 2 ^ 1000))) \<and>
   \<not> num_eq0 (FloatNum (Fin (1 / 2 ^ 1000))) \<and>
   discriminant pow2_rounded (FloatNum (Fin (1 / 2 ^ 1000))) (FloatNum (Fin (- (2 ^ 500))))
       (IntNum 0)
     = Inr (FloatNum (Fin (2 ^ 1000))) \<and>
   num_gt0 (FloatNum (Fin (2 ^ 1000))) \<and>
   solve_quadratic_func pow2_rounded (PyFloat (Fin (1 / 2 ^ 1000)))
       (PyFloat (Fin (- (2 ^ 500)))) (PyInt 0)
     = Inr (PyTuple [PyFloat PInf, PyFloat (Fin 0)]) \<and>
   discriminant pow2_rounded (IntNum 1) (IntNum (2 ^ 600)) (IntNum 0)
     = Inr (IntNum (2 ^ 1200)) \<and>
   num_gt0 (IntNum (2 ^ 1200)) \<and>
   solve_quadratic_func pow2_rounded (PyInt 1) (PyInt (2 ^ 600)) (PyInt 0)
     = Inl (Exn OverflowError ''int too large to convert to float'')"
proof -
  note T = two_roots_plus_before_minus [where ?pow2.0 = pow2_rounded]
  have d1: "discriminant pow2_rounded (IntNum 1) (IntNum (- 3)) (IntNum 2) = Inr (IntNum 1)"
    by (simp add: discriminant_ints)
  have two: "solve_quadratic_func pow2_rounded (PyInt 1) (PyInt (- 3)) (PyInt 2)
      = Inr (PyTuple [PyFloat (Fin 2), PyFloat (Fin 1)])"
    using T [where a = "PyInt 1" and b = "PyInt (- 3)" and c = "PyInt 2" and na = "IntNum 1"
        and nb = "IntNum (- 3)" and nc = "IntNum 2" and d = "IntNum 1", OF _ _ _ _ _ d1]
    by (simp add: closed_eval)
  have b2: "binary64_number (FloatNum (Fin (1 / 2 ^ 1000)))"
    using fl_2m1000 by simp
  have d2: "discriminant pow2_rounded (FloatNum (Fin (1 / 2 ^ 1000)))
      (FloatNum (Fin (- (2 ^ 500)))) (IntNum 0) = Inr (FloatNum (Fin (2 ^ 1000)))"
    using fl_2p1000 fl_2m998
    by (simp add: discriminant_def bindE_def pow2_rounded_def to_float_def fl_numeral f_sub_def)
  have inf: "solve_quadratic_func pow2_rounded (PyFloat (Fin (1 / 2 ^ 1000)))
      (PyFloat (Fin (- (2 ^ 500)))) (PyInt 0) = Inr (PyTuple [PyFloat PInf, PyFloat (Fin 0)])"
    using T [where a = "PyFloat (Fin (1 / 2 ^ 1000))" and b = "PyFloat (Fin (- (2 ^ 500)))"
        and c = "PyInt 0" and na = "FloatNum (Fin (1 / 2 ^ 1000))"
        and nb = "FloatNum (Fin (- (2 ^ 500)))" and nc = "IntNum 0"
        and d = "FloatNum (Fin (2 ^ 1000))", OF _ _ _ b2 _ d2]
      sqrt_nearest_2p1000 fl_2p501 fl_2m999 fl_overflow [of "2 ^ 1500"]
    by (simp add: f_sub_def)
  have d3: "discriminant pow2_rounded (IntNum 1) (IntNum (2 ^ 600)) (IntNum 0)
      = Inr (IntNum (2 ^ 1200))"
    by (simp add: discriminant_ints)
  have over: "solve_quadratic_func pow2_rounded (PyInt 1) (PyInt (2 ^ 600)) (PyInt 0)
      = Inl (Exn OverflowError ''int too large to convert to float'')"
    using T [where a = "PyInt 1" and b = "PyInt (2 ^ 600)" and c = "PyInt 0" and na = "IntNum 1"
        and nb = "IntNum (2 ^ 600)" and nc = "IntNum 0" and d = "IntNum (2 ^ 1200)",
        OF _ _ _ _ _ d3]
    by (simp add: closed_eval)
  have side: "binary64_number (IntNum 1)" "\<not> num_eq0 (IntNum 1)" "num_gt0 (IntNum 1)"
    "\<not> num_eq0 (FloatNum (Fin (1 / 2 ^ 1000)))" "num_gt0 (FloatNum (Fin (2 ^ 1000)))"
    "num_gt0 (IntNum (2 ^ 1200))"
    by simp_all
  from side d1 two b2 d2 inf d3 over show ?thesis by blast
qed

text \<open>
  The claim as the specification states it fails where an int leaves the float range:
  for \<open>a = 1\<close>, \<open>b = 2\<^sup>6\<^sup>0\<^sup>0\<close>, \<open>c = 0\<close> the discriminant \<open>2\<^sup>1\<^sup>2\<^sup>0\<^sup>0\<close> is positive, and
  \<^verbatim>\<open>math.sqrt\<close> raises OverflowError: no root is returned.
\<close>

theorem two_roots_plus_before_minus_counterexample:
  "\<forall>pow2.
     \<not> num_eq0 (IntNum 1) \<and>
     discriminant pow2 (IntNum 1) (IntNum (2 ^ 600)) (IntNum 0) = Inr (IntNum (2 ^ 1200)) \<and>
     num_gt0 (IntNum (2 ^ 1200)) \<and>
     solve_quadratic_func pow2 (PyInt 1) (PyInt (2 ^ 600)) (PyInt 0)
       = Inl (Exn OverflowError ''int too large to convert to float'') \<and>
     \<not> (\<exists>x1 x2. solve_quadratic_func pow2 (PyInt 1) (PyInt (2 ^ 600)) (PyInt 0)
            = Inr (PyTuple [x1, x2]))"
  using solve_at_sqrt_overflow by (simp add: discriminant_ints)

section \<open>Properties of the solver's decorator\<close>

lemma format_2f_of_number [simp]: "format_2f fmt (of_number x) = Inr (fmt x)"
  by (cases x) simp_all

lemma of_number_not_tuple [simp]: "of_number x \<noteq> PyTuple xs"
  by (cases x) simp_all

lemma solve_quadratic_func_shape:
  assumes "solve_quadratic_func pow2 a b c = Inr r"
  shows "\<exists>roots. r = PyTuple (map of_number roots) \<and> length roots \<le> 2"
proof -
  from assms have "solve_numbers pow2 (the (as_number a)) (the (as_number b)) (the (as_number c)) = Inr r"
    by (simp add: solve_quadratic_func_def split: if_splits)
  then consider "r = PyTuple []" | x where "r = PyTuple [of_number x]"
    | x1 x2 where "r = PyTuple [of_number x1, of_number x2]"
    by (auto simp: solve_numbers_def bindE_def split: if_splits sum.splits)
  then show ?thesis
  proof cases
    case 1
    then show ?thesis by (intro exI [of _ "[]"]) simp
  next
    case 2
    then show ?thesis by (intro exI [of _ "[x]"]) simp
  next
    case 3
    then show ?thesis by (intro exI [of _ "[x1, x2]"]) simp
  qed
qed





end
